theory Spec2Isabelle
  imports Main "HOL-Library.Word"
begin

section \<open>JavaScript values\<close>

text \<open>
  A JavaScript string is a sequence of UTF-16 code units. String literals of the source
  are ASCII; \<open>js\<close> turns an Isabelle string literal into code units.
\<close>

type_synonym jschar = "16 word"
type_synonym jsstring = "jschar list"

definition js :: "string \<Rightarrow> jsstring" where
  "js s = map of_char s"

text \<open>
  The values a parsed JSON body and the fields read from it can take, and \<open>undefined\<close>
  for a property that is absent. An object is the list of its members after parsing,
  one for each key. JSON numbers are kept as integers: the program only tests them for
  truthiness.
\<close>

datatype jsval =
    Undefined
  | Null
  | Bool bool
  | Num int
  | Str jsstring
  | Arr "jsval list"
  | Obj "(jsstring \<times> jsval) list"

datatype js_error = TypeError | SyntaxError | InvariantViolation

text \<open>JavaScript truthiness, as \<open>if (v)\<close>, \<open>v && w\<close> and \<open>v || w\<close> test it.\<close>

fun truthy :: "jsval \<Rightarrow> bool" where
  "truthy Undefined = False"
| "truthy Null = False"
| "truthy (Bool b) = b"
| "truthy (Num n) = (n \<noteq> 0)"
| "truthy (Str s) = (s \<noteq> [])"
| "truthy (Arr _) = True"
| "truthy (Obj _) = True"

definition js_or :: "jsval \<Rightarrow> jsval \<Rightarrow> jsval" where
  "js_or a b = (if truthy a then a else b)"

text \<open>
  Property access \<open>data.k\<close> for the keys the program reads (\<open>audio_url\<close>,
  \<open>transcription\<close>, \<open>translated_text\<close>, \<open>error\<close>): on \<open>null\<close> and
  \<open>undefined\<close> it throws a TypeError, on an object it is the member or \<open>undefined\<close>,
  and on numbers, booleans, strings and arrays, which have none of these properties, it
  is \<open>undefined\<close>.
\<close>

fun get_prop :: "jsval \<Rightarrow> jsstring \<Rightarrow> js_error + jsval" where
  "get_prop Undefined k = Inl TypeError"
| "get_prop Null k = Inl TypeError"
| "get_prop (Obj kvs) k = (case map_of kvs k of None \<Rightarrow> Inr Undefined | Some v \<Rightarrow> Inr v)"
| "get_prop _ k = Inr Undefined"

text \<open>The value read by \<open>data.k\<close> where the read does not throw.\<close>

definition member :: "jsval \<Rightarrow> jsstring \<Rightarrow> jsval" where
  "member data k = (case get_prop data k of Inr v \<Rightarrow> v | Inl _ \<Rightarrow> Undefined)"

section \<open>The authentication gate (PrivateRoute.js)\<close>

text \<open>
  The component state: \<open>user\<close> starts as \<open>null\<close> and \<open>loading\<close> as \<open>true\<close>. The
  identity provider's callback stores the identity it delivers (an object, or \<open>null\<close>
  for none) and clears \<open>loading\<close>.
\<close>

record 'u gate =
  user :: "'u option"
  loading :: bool

definition gate_init :: "'u gate" where
  "gate_init = \<lparr> user = None, loading = True \<rparr>"

definition onAuthStateChanged_gate :: "'u option \<Rightarrow> 'u gate \<Rightarrow> 'u gate" where
  "onAuthStateChanged_gate currentUser g = g\<lparr> user := currentUser, loading := False \<rparr>"

datatype 'e rendered = Placeholder string | Element 'e | Navigate string

definition PrivateRoute :: "'u gate \<Rightarrow> 'e \<Rightarrow> 'e rendered" where
  "PrivateRoute g element =
     (if loading g then Placeholder ''Loading...''
      else case user g of Some _ \<Rightarrow> Element element | None \<Rightarrow> Navigate ''/login'')"

section \<open>The profile page (profile.js)\<close>

text \<open>
  The identity the provider delivers: \<open>email\<close>, \<open>displayName\<close> and \<open>photoURL\<close> are
  a string or \<open>null\<close>.
\<close>

record fb_user =
  uid :: jsstring
  email :: "jsstring option"
  displayName :: "jsstring option"
  photoURL :: "jsstring option"

text \<open>The record \<open>userData\<close> written to the profile store.\<close>

record profile =
  email' :: "jsstring option"
  firstName :: jsval
  lastName :: jsval
  photo :: "jsstring option"

text \<open>
  \<open>s.split(sep)\<close> for a separator of one code unit, generalised to a predicate: the
  segments between separators, empty segments included; the empty string gives one
  empty segment. \<open>displayName.split(" ")\<close> is \<open>split_space\<close>.
\<close>

fun split_when :: "('a \<Rightarrow> bool) \<Rightarrow> 'a list \<Rightarrow> 'a list list" where
  "split_when p [] = [[]]"
| "split_when p (c # cs) =
     (if p c then [] # split_when p cs
      else (case split_when p cs of
              w # ws \<Rightarrow> (c # w) # ws
            | [] \<Rightarrow> [[c]]))"

definition split_space :: "jsstring \<Rightarrow> jsstring list" where
  "split_space s = split_when (\<lambda>c. c = 0x20) s"

text \<open>\<open>parts[i]\<close>: the element, or \<open>undefined\<close> beyond the end of the array.\<close>

definition at_index :: "jsstring list \<Rightarrow> nat \<Rightarrow> jsval" where
  "at_index parts i = (if i < length parts then Str (parts ! i) else Undefined)"

text \<open>
  Building \<open>userData\<close> (profile.js, lines 18 to 23). \<open>user.displayName.split\<close> throws a
  TypeError when the display name is \<open>null\<close>.
\<close>

definition userData :: "fb_user \<Rightarrow> js_error + profile" where
  "userData u =
     (case displayName u of
        None \<Rightarrow> Inl TypeError
      | Some n \<Rightarrow>
          Inr \<lparr> email' = email u,
                firstName = at_index (split_space n) 0,
                lastName = js_or (at_index (split_space n) 1) (Str []),
                photo = photoURL u \<rparr>)"

text \<open>
  The page state is \<open>userDetails\<close>; the store maps a uid to its record. The handler of
  \<open>onAuthStateChanged\<close> (profile.js, lines 9 to 29): for an identity with a stored
  record it shows that record; with none it builds \<open>userData\<close>, writes it and shows it.
  The handler is asynchronous, so an exception inside it rejects its promise: \<open>Inl\<close>
  is that outcome, with the store and the page state as they were.
\<close>

record page =
  userDetails :: "profile option"
  store :: "jsstring \<rightharpoonup> profile"

definition onAuthStateChanged_profile :: "fb_user option \<Rightarrow> page \<Rightarrow> js_error + page" where
  "onAuthStateChanged_profile usr pg =
     (case usr of
        None \<Rightarrow> Inr pg
      | Some u \<Rightarrow>
          (case store pg (uid u) of
             Some d \<Rightarrow> Inr (pg\<lparr> userDetails := Some d \<rparr>)
           | None \<Rightarrow>
               (case userData u of
                  Inl e \<Rightarrow> Inl e
                | Inr d \<Rightarrow> Inr (pg\<lparr> store := (store pg)(uid u \<mapsto> d), userDetails := Some d \<rparr>))))"

text \<open>
  ECMAScript white space and line terminators, the code units \<open>String.prototype.trim\<close>
  strips from both ends.
\<close>

definition is_js_space :: "jschar \<Rightarrow> bool" where
  "is_js_space c =
     (c \<in> {0x09, 0x0A, 0x0B, 0x0C, 0x0D, 0x20, 0xA0, 0x1680, 0x2028, 0x2029, 0x202F,
            0x205F, 0x3000, 0xFEFF}
      \<or> (0x2000 \<le> c \<and> c \<le> 0x200A))"

definition trim :: "jsstring \<Rightarrow> jsstring" where
  "trim s = rev (dropWhile is_js_space (rev (dropWhile is_js_space s)))"

text \<open>
  The words of a name as the specification speaks of them: the maximal runs of code
  units that are not white space. This definition follows the specification's wording
  (``whitespace-separated word''), not the code; it is what \<open>userData\<close> is compared with.
\<close>

definition spec_words :: "jsstring \<Rightarrow> jsstring list" where
  "spec_words s = filter (\<lambda>w. w \<noteq> []) (split_when is_js_space s)"

text \<open>
  A name whose only white space is the space U+0020, with no white space at either end
  and no two white spaces in a row: no segment between white spaces is empty.
\<close>

definition single_spaced :: "jsstring \<Rightarrow> bool" where
  "single_spaced s \<longleftrightarrow>
     (\<forall>c\<in>set s. is_js_space c \<longrightarrow> c = 0x20) \<and> [] \<notin> set (split_when is_js_space s)"

definition spec_word :: "jsstring \<Rightarrow> nat \<Rightarrow> jsval" where
  "spec_word s i = (if i < length (spec_words s) then Str (spec_words s ! i) else Str [])"

section \<open>The translator view (TranslatorPage)\<close>

text \<open>
  The model covers recording, the three submission paths and the waveform effect. The
  card's mouse handlers, the typing effect that copies \<open>translatedText\<close> into
  \<open>displayedText\<close> and \<open>playAudio\<close> are left out. The constructors \<open>MediaRecorder\<close>,
  \<open>AudioContext\<close> and \<open>Audio\<close> and the calls \<open>start()\<close>, \<open>stop()\<close> and \<open>close()\<close> are
  taken to succeed; neither the recorder nor a stream ends by itself.
\<close>

subsection \<open>State\<close>

text \<open>
  A \<open>Blob\<close> is its bytes; \<open>blob.size\<close> is their number and \<open>new Blob(parts)\<close> their
  concatenation in the order of \<open>parts\<close>. A request is what \<open>fetch\<close> is called with:
  the multipart field \<open>audio\<close> (payload and file name) for the speech endpoint, or
  the JSON fields \<open>source_language\<close>, \<open>target_language\<close> and \<open>text\<close> for the text
  endpoint.
\<close>

type_synonym blob = "8 word list"

record upload =
  file_name :: jsstring
  file_bytes :: blob

datatype request =
    SpeechToSpeech blob jsstring
  | TextToSpeech jsstring jsstring jsstring

text \<open>
  How a \<open>fetch\<close> followed by \<open>response.json()\<close> settles: \<open>fetch\<close> rejects, or there is
  a response with its \<open>ok\<close> flag and the parsed body (\<open>None\<close> when the body is not
  JSON and \<open>json()\<close> rejects). How \<open>getUserMedia\<close> settles: with a new stream, or
  rejected with an error whose \<open>message\<close> is given.
\<close>

datatype fetch_result = NetworkFailure | Response bool "jsval option"

datatype gum_result = Granted | Denied jsstring

text \<open>
  The component's React state (\<open>text'\<close> is the state variable \<open>text\<close>) and refs, React's
  bookkeeping of the \<open>[recording]\<close> effect (whether the component is mounted, the value
  of \<open>recording\<close> the effect last ran with, whether that run returned a cleanup
  function), and the browser objects the component creates, named by numbers taken
  from \<open>next_id\<close>:
  \<^item> \<open>live_streams\<close>: the microphone streams \<open>getUserMedia\<close> has delivered whose
    tracks have not been stopped;
  \<^item> \<open>active_recorders\<close>: the \<open>MediaRecorder\<close>s in state \<open>recording\<close>;
  \<^item> \<open>open_contexts\<close>: the \<open>AudioContext\<close>s not closed; \<open>closed_contexts\<close>: one entry
    for each call of \<open>close()\<close>;
  \<^item> \<open>pending_frames\<close>: the handles of the animation frame callbacks requested and
    neither run nor cancelled; \<open>draws\<close>: how often \<open>drawWaveform\<close> has started to
    paint; \<open>canvas_clears\<close>: how often the idle branch of the effect cleared the canvas;
  \<^item> \<open>alerts\<close>, \<open>requests\<close>, \<open>played\<close>: the calls of \<open>alert\<close>, of \<open>fetch\<close> and of
    \<open>new Audio(url).play()\<close>, in order;
  \<^item> \<open>start_waiting\<close>, \<open>viz_waiting\<close>: the calls of \<open>getUserMedia\<close> by
    \<open>startRecording\<close> and by the effect that have not settled yet.
\<close>

record view =
  text' :: jsstring
  translatedText :: jsval
  displayedText :: jsval
  sourceLanguage :: jsstring
  targetLanguage :: jsstring
  isTranslating :: bool
  error :: jsval
  recording :: bool
  mediaRecorderRef :: "nat option"
  audioChunksRef :: "blob list"
  animationIdRef :: "nat option"
  audioContextRef :: "nat option"
  analyserRef :: "nat option"
  sourceRef :: "nat option"
  mounted :: bool
  effect_dep :: "bool option"
  has_cleanup :: bool
  media_supported :: bool
  next_id :: nat
  live_streams :: "nat list"
  active_recorders :: "nat list"
  open_contexts :: "nat list"
  closed_contexts :: "nat list"
  pending_frames :: "nat list"
  draws :: nat
  canvas_clears :: nat
  alerts :: "jsstring list"
  requests :: "request list"
  played :: "jsval list"
  start_waiting :: nat
  viz_waiting :: nat

text \<open>
  The state of the first render, before any effect has run. \<open>supported\<close> says whether
  the platform has \<open>navigator.mediaDevices.getUserMedia\<close>.
\<close>

definition init :: "bool \<Rightarrow> view" where
  "init supported =
     \<lparr> text' = [], translatedText = Str [], displayedText = Str [],
       sourceLanguage = js ''auto'', targetLanguage = js ''hi'',
       isTranslating = False, error = Str [], recording = False,
       mediaRecorderRef = None, audioChunksRef = [], animationIdRef = None,
       audioContextRef = None, analyserRef = None, sourceRef = None,
       mounted = True, effect_dep = None, has_cleanup = False,
       media_supported = supported, next_id = 0, live_streams = [],
       active_recorders = [], open_contexts = [], closed_contexts = [],
       pending_frames = [], draws = 0, canvas_clears = 0, alerts = [], requests = [],
       played = [], start_waiting = 0, viz_waiting = 0 \<rparr>"

text \<open>
  The state setters of \<open>useState\<close>. React drops the update of an unmounted component;
  here it is written to the record, whose state fields nothing reads after the unmount.
\<close>

definition setError :: "jsval \<Rightarrow> view \<Rightarrow> view" where
  "setError v s = s\<lparr> error := v \<rparr>"

definition setIsTranslating :: "bool \<Rightarrow> view \<Rightarrow> view" where
  "setIsTranslating b s = s\<lparr> isTranslating := b \<rparr>"

definition setTranslatedText :: "jsval \<Rightarrow> view \<Rightarrow> view" where
  "setTranslatedText v s = s\<lparr> translatedText := v \<rparr>"

definition setDisplayedText :: "jsval \<Rightarrow> view \<Rightarrow> view" where
  "setDisplayedText v s = s\<lparr> displayedText := v \<rparr>"

definition setRecording :: "bool \<Rightarrow> view \<Rightarrow> view" where
  "setRecording b s = s\<lparr> recording := b \<rparr>"

text \<open>
  The inline message the view renders, \<open>{error && <p className="error-msg">{error}</p>}\<close>
  (line 346): nothing for a falsy \<open>error\<close>.
\<close>

definition error_msg :: "view \<Rightarrow> jsval option" where
  "error_msg s = (if truthy (error s) then Some (error s) else None)"

text \<open>
  What React accepts as the child \<open>{error}\<close> of the paragraph: a string or a number,
  which it shows; a boolean, \<open>null\<close> or \<open>undefined\<close>, for which it shows nothing; an
  array of such children. An object is refused with an invariant violation (``Objects
  are not valid as a React child''), thrown while rendering; the application has no
  error boundary, so React then removes the whole tree.
\<close>

fun valid_child :: "jsval \<Rightarrow> bool" where
  "valid_child (Obj kvs) = False"
| "valid_child (Arr xs) = list_all valid_child xs"
| "valid_child v = True"

text \<open>
  Rendering line 346 in state \<open>s\<close>: the child of the paragraph shown, none when
  \<open>error\<close> is falsy, or the exception that ends the view.
\<close>

definition render_error :: "view \<Rightarrow> js_error + jsval option" where
  "render_error s =
     (case error_msg s of
        None \<Rightarrow> Inr None
      | Some v \<Rightarrow> if valid_child v then Inr (Some v) else Inl InvariantViolation)"

text \<open>A body's \<open>error\<close> as the backend's interface has it: absent, \<open>null\<close> or a string.\<close>

fun string_or_absent :: "jsval \<Rightarrow> bool" where
  "string_or_absent Undefined = True"
| "string_or_absent Null = True"
| "string_or_absent (Str m) = True"
| "string_or_absent v = False"

text \<open>\<open>new Audio(url).play()\<close>.\<close>

definition play :: "jsval \<Rightarrow> view \<Rightarrow> view" where
  "play url s = s\<lparr> played := played s @ [url] \<rparr>"

text \<open>
  The audio a settled request leads the recording and text paths to play: the body's
  \<open>audio_url\<close> when the response is \<open>ok\<close> and the value is truthy, nothing otherwise.
\<close>

definition audio_to_play :: "fetch_result \<Rightarrow> jsval list" where
  "audio_to_play r =
     (case r of
        Response ok (Some data) \<Rightarrow>
          if ok \<and> truthy (member data (js ''audio_url''))
          then [member data (js ''audio_url'')] else []
      | _ \<Rightarrow> [])"

text \<open>Sequencing of steps that may throw: the first exception ends the sequence.\<close>

definition and_then :: "'e + 'a \<Rightarrow> ('a \<Rightarrow> 'e + 'b) \<Rightarrow> 'e + 'b" where
  "and_then r f = (case r of Inl e \<Rightarrow> Inl e | Inr v \<Rightarrow> f v)"

subsection \<open>Recording\<close>

text \<open>
  \<open>startRecording\<close> (lines 64 to 83) up to its \<open>await\<close>: the error is cleared; without
  capture support there is an \<open>alert\<close> and nothing else; otherwise \<open>getUserMedia\<close> is
  called.
\<close>

definition startRecording_begin :: "view \<Rightarrow> view" where
  "startRecording_begin s =
     (let s1 = setError (Str []) s in
      if \<not> media_supported s1
      then s1\<lparr> alerts := alerts s1 @ [js ''Audio recording not supported in this browser.''] \<rparr>
      else s1\<lparr> start_waiting := Suc (start_waiting s1) \<rparr>)"

text \<open>
  \<open>startRecording\<close> after its \<open>await\<close>. A rejection goes to the \<open>catch\<close>. A stream goes
  to a new \<open>MediaRecorder\<close>, stored in \<open>mediaRecorderRef\<close>; the chunk array is replaced
  by an empty one, the recorder is started and \<open>recording\<close> is set. Nothing looks at the
  recorder the ref held before.
\<close>

definition startRecording_settle :: "gum_result \<Rightarrow> view \<Rightarrow> view" where
  "startRecording_settle r s =
     (let s0 = s\<lparr> start_waiting := start_waiting s - 1 \<rparr> in
      case r of
        Denied m \<Rightarrow> setError (Str (js ''Microphone access denied or error: '' @ m)) s0
      | Granted \<Rightarrow>
          (let stream = next_id s0;
               recorder = Suc (next_id s0);
               s1 = s0\<lparr> next_id := next_id s0 + 2, live_streams := live_streams s0 @ [stream] \<rparr>;
               s2 = s1\<lparr> mediaRecorderRef := Some recorder \<rparr>;
               s3 = s2\<lparr> audioChunksRef := [] \<rparr>;
               s4 = s3\<lparr> active_recorders := active_recorders s3 @ [recorder] \<rparr>
           in setRecording True s4))"

text \<open>A call of \<open>startRecording\<close> whose \<open>getUserMedia\<close> settles with \<open>r\<close> before anything else happens.\<close>

definition startRecording :: "gum_result \<Rightarrow> view \<Rightarrow> view" where
  "startRecording r s =
     (if media_supported s then startRecording_settle r (startRecording_begin s)
      else startRecording_begin s)"

text \<open>\<open>stopRecording\<close> (lines 85 to 90).\<close>

definition stopRecording :: "view \<Rightarrow> view" where
  "stopRecording s =
     (case mediaRecorderRef s of
        None \<Rightarrow> s
      | Some recorder \<Rightarrow>
          if recording s
          then setRecording False
                 (s\<lparr> active_recorders := removeAll recorder (active_recorders s) \<rparr>)
          else s)"

text \<open>The recorder's \<open>ondataavailable\<close> handler (lines 74 to 76), for \<open>event.data = d\<close>.\<close>

definition ondataavailable :: "blob \<Rightarrow> view \<Rightarrow> view" where
  "ondataavailable d s =
     (if length d > 0 then s\<lparr> audioChunksRef := audioChunksRef s @ [d] \<rparr> else s)"

text \<open>
  \<open>handleRecordingStop\<close> (lines 92 to 118), the recorder's \<open>onstop\<close> handler, up to the
  \<open>await fetch\<close>.
\<close>

definition handleRecordingStop_begin :: "view \<Rightarrow> view" where
  "handleRecordingStop_begin s =
     (let audioBlob = concat (audioChunksRef s);
          s1 = setError (Str []) s;
          s2 = setIsTranslating True s1;
          s3 = setTranslatedText (Str []) s2;
          s4 = setDisplayedText (Str []) s3
      in s4\<lparr> requests := requests s4 @ [SpeechToSpeech audioBlob (js ''recording.webm'')] \<rparr>)"

text \<open>
  The rest of its \<open>try\<close> block, once the request has settled. \<open>response.ok && data.audio_url\<close>
  reads \<open>data.audio_url\<close> only when \<open>response.ok\<close> holds.
\<close>

definition handleRecordingStop_try :: "fetch_result \<Rightarrow> view \<Rightarrow> js_error + view" where
  "handleRecordingStop_try r s =
     (case r of
        NetworkFailure \<Rightarrow> Inl TypeError
      | Response ok None \<Rightarrow> Inl SyntaxError
      | Response ok (Some data) \<Rightarrow>
          and_then (if ok then get_prop data (js ''audio_url'') else Inr (Bool False)) (\<lambda>c.
            if truthy c
            then and_then (get_prop data (js ''transcription'')) (\<lambda>t.
                 and_then (get_prop data (js ''audio_url'')) (\<lambda>u.
                   Inr (play u (setTranslatedText (js_or t (Str [])) s))))
            else and_then (get_prop data (js ''error'')) (\<lambda>e.
                   Inr (setError (js_or e (Str (js ''Failed to process speech.''))) s))))"

definition handleRecordingStop_settle :: "fetch_result \<Rightarrow> view \<Rightarrow> view" where
  "handleRecordingStop_settle r s =
     setIsTranslating False
       (case handleRecordingStop_try r s of
          Inl _ \<Rightarrow> setError (Str (js ''Connection error.'')) s
        | Inr s' \<Rightarrow> s')"

subsection \<open>Text translation and file upload\<close>

text \<open>\<open>handleTranslate\<close> (lines 135 to 166) up to its \<open>await fetch\<close>.\<close>

definition handleTranslate_begin :: "view \<Rightarrow> view" where
  "handleTranslate_begin s =
     (if trim (text' s) = []
      then setError (Str (js ''Please enter or record some text to translate.'')) s
      else
        (let s1 = setError (Str []) s;
             s2 = setIsTranslating True s1;
             s3 = setTranslatedText (Str []) s2;
             s4 = setDisplayedText (Str []) s3
         in s4\<lparr> requests := requests s4 @
                  [TextToSpeech (sourceLanguage s4) (targetLanguage s4) (text' s4)] \<rparr>))"

definition handleTranslate_try :: "fetch_result \<Rightarrow> view \<Rightarrow> js_error + view" where
  "handleTranslate_try r s =
     (case r of
        NetworkFailure \<Rightarrow> Inl TypeError
      | Response ok None \<Rightarrow> Inl SyntaxError
      | Response ok (Some data) \<Rightarrow>
          and_then (if ok then get_prop data (js ''audio_url'') else Inr (Bool False)) (\<lambda>c.
            if truthy c
            then and_then (get_prop data (js ''translated_text'')) (\<lambda>t.
                 and_then (get_prop data (js ''audio_url'')) (\<lambda>u.
                   Inr (play u (setTranslatedText (js_or t (Str [])) s))))
            else and_then (get_prop data (js ''error'')) (\<lambda>e.
                   Inr (setError (js_or e (Str (js ''Translation failed.''))) s))))"

definition handleTranslate_settle :: "fetch_result \<Rightarrow> view \<Rightarrow> view" where
  "handleTranslate_settle r s =
     setIsTranslating False
       (case handleTranslate_try r s of
          Inl _ \<Rightarrow> setError (Str (js ''Connection error.'')) s
        | Inr s' \<Rightarrow> s')"

text \<open>
  \<open>handleFileUpload\<close> (lines 168 to 187): \<open>f\<close> is \<open>e.target.files[0]\<close>, \<open>None\<close> when no
  file was chosen. The second \<open>then\<close> callback tests \<open>data.audio_url\<close> alone; the
  response's status is not read.
\<close>

definition handleFileUpload_begin :: "upload option \<Rightarrow> view \<Rightarrow> view" where
  "handleFileUpload_begin f s =
     (case f of
        None \<Rightarrow> s
      | Some fl \<Rightarrow> s\<lparr> requests := requests s @ [SpeechToSpeech (file_bytes fl) (file_name fl)] \<rparr>)"

definition handleFileUpload_then :: "fetch_result \<Rightarrow> view \<Rightarrow> js_error + view" where
  "handleFileUpload_then r s =
     (case r of
        NetworkFailure \<Rightarrow> Inl TypeError
      | Response ok None \<Rightarrow> Inl SyntaxError
      | Response ok (Some data) \<Rightarrow>
          and_then (get_prop data (js ''audio_url'')) (\<lambda>c.
            if truthy c
            then and_then (get_prop data (js ''transcription'')) (\<lambda>t.
                 and_then (get_prop data (js ''audio_url'')) (\<lambda>u.
                   Inr (play u (setTranslatedText (js_or t (Str [])) s))))
            else and_then (get_prop data (js ''error'')) (\<lambda>e.
                   Inr (setError (js_or e (Str (js ''Failed to process audio file.''))) s))))"

definition handleFileUpload_settle :: "fetch_result \<Rightarrow> view \<Rightarrow> view" where
  "handleFileUpload_settle r s =
     (case handleFileUpload_then r s of
        Inl _ \<Rightarrow> setError (Str (js ''Connection error.'')) s
      | Inr s' \<Rightarrow> s')"

subsection \<open>The waveform effect\<close>

text \<open>
  The two guarded blocks the effect and its cleanup share. A handle returned by
  \<open>requestAnimationFrame\<close> is a positive number, so \<open>if (animationIdRef.current)\<close>
  tests that the ref is not \<open>null\<close>; \<open>cancelAnimationFrame\<close> leaves the ref as it is.
  The context is closed only through the ref, which is cleared with it.
\<close>

definition cancel_frame :: "view \<Rightarrow> view" where
  "cancel_frame s =
     (case animationIdRef s of
        None \<Rightarrow> s
      | Some f \<Rightarrow> s\<lparr> pending_frames := removeAll f (pending_frames s) \<rparr>)"

definition close_context :: "view \<Rightarrow> view" where
  "close_context s =
     (case audioContextRef s of
        None \<Rightarrow> s
      | Some c \<Rightarrow>
          s\<lparr> open_contexts := removeAll c (open_contexts s),
             closed_contexts := closed_contexts s @ [c],
             audioContextRef := None, analyserRef := None, sourceRef := None \<rparr>)"

text \<open>The cleanup function the effect returns when it ran with \<open>recording\<close> true (lines 247 to 255).\<close>

definition waveform_cleanup :: "view \<Rightarrow> view" where
  "waveform_cleanup s = close_context (cancel_frame s)"

text \<open>
  The effect's body (lines 189 to 246), up to the call of \<open>getUserMedia\<close>. With
  \<open>recording\<close> false it cancels, clears the canvas, closes, and returns no cleanup.
  With \<open>recording\<close> true it sizes the canvas (not modelled), stores a new
  \<open>AudioContext\<close> in the ref, whatever the ref held, asks for a microphone stream of
  its own and returns the cleanup.
\<close>

definition waveform_effect :: "view \<Rightarrow> view" where
  "waveform_effect s =
     (if \<not> recording s
      then (let s1 = cancel_frame s;
                s2 = s1\<lparr> canvas_clears := Suc (canvas_clears s1) \<rparr>;
                s3 = close_context s2
            in s3\<lparr> has_cleanup := False \<rparr>)
      else (let c = next_id s
            in s\<lparr> next_id := Suc c, open_contexts := open_contexts s @ [c],
                  audioContextRef := Some c, viz_waiting := Suc (viz_waiting s),
                  has_cleanup := True \<rparr>))"

text \<open>
  \<open>drawWaveform\<close> (lines 221 to 239): it clears and paints the canvas from the analyser
  named by \<open>analyserRef\<close> at that moment, then requests the next frame and stores its
  handle. The coordinates painted are not modelled. With \<open>analyserRef.current\<close> null,
  reading the samples throws after the canvas has been cleared, and no frame is
  requested. The result is the state and the exception thrown, if any.
\<close>

definition drawWaveform :: "view \<Rightarrow> view \<times> js_error option" where
  "drawWaveform s =
     (let s1 = s\<lparr> draws := Suc (draws s) \<rparr> in
      case analyserRef s1 of
        None \<Rightarrow> (s1, Some TypeError)
      | Some _ \<Rightarrow>
          (let f = next_id s1
           in (s1\<lparr> next_id := Suc f, pending_frames := pending_frames s1 @ [f],
                    animationIdRef := Some f \<rparr>, None)))"

text \<open>
  The browser runs the frame callback with handle \<open>f\<close>, if it is still pending. An
  exception in the callback is reported by the browser and ends that loop.
\<close>

definition frame_fire :: "nat \<Rightarrow> view \<Rightarrow> view" where
  "frame_fire f s =
     (if f \<in> set (pending_frames s)
      then fst (drawWaveform (s\<lparr> pending_frames := removeAll f (pending_frames s) \<rparr>))
      else s)"

text \<open>
  The \<open>then\<close> callback of the effect's \<open>getUserMedia\<close> (lines 213 to 241). It reads
  \<open>audioContextRef.current\<close> when it runs: \<open>null\<close> there is a TypeError.
\<close>

definition viz_then :: "view \<Rightarrow> view \<times> js_error option" where
  "viz_then s =
     (let stream = next_id s;
          s1 = s\<lparr> next_id := Suc stream, live_streams := live_streams s @ [stream] \<rparr>
      in case audioContextRef s1 of
           None \<Rightarrow> (s1, Some TypeError)
         | Some c \<Rightarrow>
             (let s2 = s1\<lparr> sourceRef := Some stream \<rparr>;
                  s3 = s2\<lparr> analyserRef := Some c \<rparr>
              in drawWaveform s3))"

text \<open>The \<open>catch\<close> callback (lines 242 to 245), for an error with message \<open>m\<close>.\<close>

definition viz_catch :: "jsstring \<Rightarrow> view \<Rightarrow> view" where
  "viz_catch m s = setRecording False (setError (Str (js ''Mic access denied or error: '' @ m)) s)"

text \<open>The message of the TypeError for a property read on \<open>null\<close>; its wording is the engine's.\<close>

definition null_read_message :: jsstring where
  "null_read_message = js ''Cannot read properties of null''"

definition viz_settle :: "gum_result \<Rightarrow> view \<Rightarrow> view" where
  "viz_settle r s =
     (let s0 = s\<lparr> viz_waiting := viz_waiting s - 1 \<rparr> in
      case r of
        Denied m \<Rightarrow> viz_catch m s0
      | Granted \<Rightarrow>
          (case viz_then s0 of
             (s1, None) \<Rightarrow> s1
           | (s1, Some _) \<Rightarrow> viz_catch null_read_message s1))"

subsection \<open>React's scheduling of the effect, and the events of a run\<close>

text \<open>
  After a render React runs the effect when its dependency \<open>recording\<close> differs from
  the value of the last run (always, after the first render): first the cleanup of the
  last run, if it returned one, then the body. On unmount React runs the cleanup of
  the last run, if any. An unmounted component is not rendered again.
\<close>

definition commit :: "view \<Rightarrow> view" where
  "commit s =
     (if mounted s \<and> effect_dep s \<noteq> Some (recording s)
      then (waveform_effect (if has_cleanup s then waveform_cleanup s else s))
             \<lparr> effect_dep := Some (recording s) \<rparr>
      else s)"

definition unmount :: "view \<Rightarrow> view" where
  "unmount s =
     (if mounted s
      then (if has_cleanup s then waveform_cleanup s else s)
             \<lparr> mounted := False, has_cleanup := False \<rparr>
      else s)"

definition mount :: "bool \<Rightarrow> view" where
  "mount supported = commit (init supported)"

text \<open>
  What can happen to a mounted translator view, one event at a time: a click on the
  record button, which is the start button while \<open>recording\<close> is false and the stop
  button while it is true (lines 335 to 343); the \<open>getUserMedia\<close> of an earlier
  \<open>startRecording\<close> or of the effect settling; a pending animation frame running; the
  view being unmounted. React renders and runs effects after each.
\<close>

datatype event =
    ClickMic
  | StartSettled gum_result
  | VizSettled gum_result
  | Frame nat
  | Unmount

fun handle :: "event \<Rightarrow> view \<Rightarrow> view" where
  "handle ClickMic s =
     (if mounted s then (if recording s then stopRecording s else startRecording_begin s) else s)"
| "handle (StartSettled r) s = (if start_waiting s > 0 then startRecording_settle r s else s)"
| "handle (VizSettled r) s = (if viz_waiting s > 0 then viz_settle r s else s)"
| "handle (Frame f) s = frame_fire f s"
| "handle Unmount s = unmount s"

definition dispatch :: "event \<Rightarrow> view \<Rightarrow> view" where
  "dispatch e s = commit (handle e s)"

definition run :: "event list \<Rightarrow> view \<Rightarrow> view" where
  "run evs s = foldl (\<lambda>s e. dispatch e s) s evs"

text \<open>
  Calls of \<open>startRecording\<close> and \<open>stopRecording\<close> themselves, whatever the view
  shows, each start with the way its \<open>getUserMedia\<close> settles, each followed by React's
  render and effects.
\<close>

datatype call = Start gum_result | Stop

fun apply_call :: "call \<Rightarrow> view \<Rightarrow> view" where
  "apply_call (Start r) s = commit (startRecording r s)"
| "apply_call Stop s = commit (stopRecording s)"

definition run_calls :: "call list \<Rightarrow> view \<Rightarrow> view" where
  "run_calls cs s = foldl (\<lambda>s c. apply_call c s) s cs"



section \<open>Invariants of a run\<close>

text \<open>
  Auxiliary functions on a ref: the list of what it holds, a list without what it holds,
  and a second ref cleared when the first holds something.
\<close>

fun ref_list :: "nat option \<Rightarrow> nat list" where
  "ref_list None = []"
| "ref_list (Some c) = [c]"

fun drop_ref :: "nat option \<Rightarrow> nat list \<Rightarrow> nat list" where
  "drop_ref None xs = xs"
| "drop_ref (Some c) xs = removeAll c xs"

fun clear_with :: "nat option \<Rightarrow> nat option \<Rightarrow> nat option" where
  "clear_with None x = x"
| "clear_with (Some c) x = None"

text \<open>
  What every handler and every effect run keeps true: a cleanup is registered exactly
  when the effect last ran, mounted, with \<open>recording\<close> true, and exactly then
  \<open>audioContextRef\<close> holds a context; that context is the only open one; no context has
  been closed twice; \<open>recording\<close> is only true once a recorder has been stored.
  After React has run the effects, the effect's dependency is the current \<open>recording\<close>.
\<close>

definition core :: "view \<Rightarrow> bool" where
  "core s \<longleftrightarrow>
     (has_cleanup s \<longrightarrow> mounted s \<and> effect_dep s = Some True) \<and>
     (mounted s \<and> \<not> has_cleanup s \<longrightarrow> effect_dep s = Some False) \<and>
     (has_cleanup s \<longleftrightarrow> audioContextRef s \<noteq> None) \<and>
     open_contexts s = ref_list (audioContextRef s) \<and>
     distinct (closed_contexts s) \<and>
     (\<forall>c\<in>set (closed_contexts s). c < next_id s) \<and>
     (\<forall>c\<in>set (open_contexts s). c < next_id s) \<and>
     (\<forall>c\<in>set (open_contexts s). c \<notin> set (closed_contexts s)) \<and>
     (recording s \<longrightarrow> mediaRecorderRef s \<noteq> None)"

definition ctx_inv :: "view \<Rightarrow> bool" where
  "ctx_inv s \<longleftrightarrow> core s \<and> (mounted s \<longrightarrow> effect_dep s = Some (recording s))"



section \<open>Properties: strings and values\<close>

lemmas setters = setError_def setIsTranslating_def setTranslatedText_def setDisplayedText_def
  setRecording_def play_def

lemma js_nonempty: "(js s = []) = (s = [])"
  by (simp add: js_def)

lemma unat_of_char: "unat (of_char c :: jschar) = of_char c"
proof -
  have "unat (of_nat (of_char c) :: jschar) = of_char c mod 2 ^ 16"
    by (simp add: unat_of_nat)
  moreover have "(of_char c :: nat) < 2 ^ 16"
  proof -
    have "(of_char c :: nat) < 256" by (rule nat_of_char_less_256)
    also have "(256 :: nat) < 2 ^ 16" by simp
    finally show ?thesis .
  qed
  ultimately show ?thesis
    by (simp add: of_nat_of_char)
qed

lemma inj_jschar: "inj (of_char :: char \<Rightarrow> jschar)"
proof (rule injI)
  fix c d :: char
  assume "(of_char c :: jschar) = of_char d"
  then have "unat (of_char c :: jschar) = unat (of_char d :: jschar)" by simp
  then show "c = d" by (simp add: unat_of_char)
qed

lemma js_eq_iff: "(js a = js b) = (a = b)"
  by (simp add: js_def inj_jschar)

lemma js_or_Str: "js_or (Str x) (Str []) = Str x"
  by (simp add: js_or_def)

lemma get_prop_total:
  "data \<noteq> Null \<Longrightarrow> data \<noteq> Undefined \<Longrightarrow> get_prop data k = Inr (member data k)"
  by (cases data) (auto simp: member_def split: option.splits)

lemma member_Null: "member Null k = Undefined" "member Undefined k = Undefined"
  by (simp_all add: member_def)

lemma truthy_member: "truthy (member data k) \<Longrightarrow> data \<noteq> Null \<and> data \<noteq> Undefined"
  by (auto simp: member_Null)

lemma js_or_message: "truthy (js_or e (Str (js (c # cs))))"
  by (simp add: js_or_def js_def)

lemma dropWhile_all_iff: "(\<forall>x\<in>set (dropWhile P xs). P x) \<longleftrightarrow> (\<forall>x\<in>set xs. P x)"
proof (cases "dropWhile P xs")
  case Nil
  have "\<forall>x\<in>set xs. P x" using Nil by simp
  moreover have "\<forall>x\<in>set (dropWhile P xs). P x" unfolding Nil by simp
  ultimately show ?thesis by blast
next
  case (Cons y ys)
  then have "\<not> P y" and "y \<in> set xs"
    using hd_dropWhile [of P xs] set_dropWhileD [of y P xs] by auto
  with Cons show ?thesis by auto
qed

lemma trim_empty_iff: "trim t = [] \<longleftrightarrow> (\<forall>c\<in>set t. is_js_space c)"
  by (simp add: trim_def dropWhile_all_iff)

section \<open>Properties: the authentication gate\<close>

lemma gate_after_callbacks:
  "foldl (\<lambda>g u. onAuthStateChanged_gate u g) g us =
     (if us = [] then g else \<lparr> user = last us, loading = False \<rparr>)"
  by (induction us arbitrary: g) (auto simp: onAuthStateChanged_gate_def)

text \<open>
  C6. Before the provider has called back, the gate renders the loading placeholder.
  After any callbacks it renders by the identity delivered last: the redirect to
  \<open>/login\<close> when that is none, the protected element when it is an identity, and the
  protected element in no other case. So once an identity that was delivered becomes
  none, the next render is the redirect.
\<close>

theorem PrivateRoute_follows_identity:
  "PrivateRoute (foldl (\<lambda>g u. onAuthStateChanged_gate u g) gate_init us) e =
     (if us = [] then Placeholder ''Loading...''
      else case last us of None \<Rightarrow> Navigate ''/login'' | Some _ \<Rightarrow> Element e)"
  by (simp add: gate_after_callbacks PrivateRoute_def gate_init_def)

section \<open>Properties: recorded chunks\<close>

lemma chunks_accumulate:
  "audioChunksRef (foldl (\<lambda>s d. ondataavailable d s) s ds) =
     audioChunksRef s @ filter (\<lambda>d. d \<noteq> []) ds"
  by (induction ds arbitrary: s) (auto simp: ondataavailable_def)

lemma requests_ondataavailable:
  "requests (foldl (\<lambda>s d. ondataavailable d s) s ds) = requests s"
  by (induction ds arbitrary: s) (auto simp: ondataavailable_def)

lemma concat_filter_nonempty: "concat (filter (\<lambda>d. d \<noteq> []) ds) = concat ds"
  by (induction ds) auto

lemma stopRecording_keeps:
  "audioChunksRef (stopRecording s) = audioChunksRef s"
  "requests (stopRecording s) = requests s"
  by (simp_all add: stopRecording_def setters split: option.splits)

lemma startRecording_settle_granted:
  "audioChunksRef (startRecording_settle Granted s) = []"
  "requests (startRecording_settle Granted s) = requests s"
  by (simp_all add: startRecording_settle_def setters Let_def)

lemma handleRecordingStop_begin_request:
  "requests (handleRecordingStop_begin s) =
     requests s @ [SpeechToSpeech (concat (audioChunksRef s)) (js ''recording.webm'')]"
  by (simp add: handleRecordingStop_begin_def setters Let_def)

text \<open>
  C3. A recording starts with an empty chunk array. Of the chunks delivered while it
  runs (\<open>before\<close>) and after the stop was requested (\<open>after\<close>), those that are not
  empty are kept in the order of delivery, and the payload sent when the recorder has
  stopped is the bytes of all delivered chunks in that order.
\<close>

theorem recording_payload_in_capture_order:
  "audioChunksRef
     (foldl (\<lambda>s d. ondataavailable d s)
        (stopRecording (foldl (\<lambda>s d. ondataavailable d s) (startRecording_settle Granted s) before))
        after)
     = filter (\<lambda>d. d \<noteq> []) (before @ after)
   \<and> requests
       (handleRecordingStop_begin
          (foldl (\<lambda>s d. ondataavailable d s)
             (stopRecording (foldl (\<lambda>s d. ondataavailable d s) (startRecording_settle Granted s) before))
             after))
     = requests s @ [SpeechToSpeech (concat (before @ after)) (js ''recording.webm'')]"
  by (simp add: handleRecordingStop_begin_request chunks_accumulate requests_ondataavailable
      stopRecording_keeps startRecording_settle_granted concat_filter_nonempty)

section \<open>Properties: submissions\<close>

lemma mount_supported: "media_supported (mount b) = b"
  by (simp add: mount_def commit_def init_def waveform_effect_def cancel_frame_def
      close_context_def)

text \<open>
  C8. With a text that is empty or consists of white space only, \<open>handleTranslate\<close>
  sets the validation message and does nothing else: the message is shown, no request
  is issued, and the translation state (the translated and displayed text, the
  translating flag) is as it was.
\<close>

theorem blank_text_blocks_translation:
  assumes "\<forall>c\<in>set (text' s). is_js_space c"
  shows "handleTranslate_begin s =
           s\<lparr> error := Str (js ''Please enter or record some text to translate.'') \<rparr> \<and>
         error_msg (handleTranslate_begin s) =
           Some (Str (js ''Please enter or record some text to translate.'')) \<and>
         requests (handleTranslate_begin s) = requests s \<and>
         translatedText (handleTranslate_begin s) = translatedText s \<and>
         displayedText (handleTranslate_begin s) = displayedText s \<and>
         isTranslating (handleTranslate_begin s) = isTranslating s"
  using assms
  by (simp add: handleTranslate_begin_def trim_empty_iff setError_def error_msg_def js_nonempty)

theorem blank_text_blocks_translation_witness:
  "requests (handleTranslate_begin ((mount True)\<lparr> text' := [0x20, 0x09, 0xA0] \<rparr>)) =
     requests ((mount True)\<lparr> text' := [0x20, 0x09, 0xA0] \<rparr>) \<and>
   error_msg (handleTranslate_begin ((mount True)\<lparr> text' := [0x20, 0x09, 0xA0] \<rparr>)) =
     Some (Str (js ''Please enter or record some text to translate.''))"
proof -
  have "\<forall>c\<in>set (text' ((mount True)\<lparr> text' := [0x20, 0x09, 0xA0] \<rparr>)). is_js_space c"
    by (simp add: is_js_space_def)
  then show ?thesis
    using blank_text_blocks_translation [of "(mount True)\<lparr> text' := [0x20, 0x09, 0xA0] \<rparr>"]
    by blast
qed

lemma handleRecordingStop_failure:
  assumes "data \<noteq> Null" "data \<noteq> Undefined" "\<not> (ok \<and> truthy (member data (js ''audio_url'')))"
  shows "handleRecordingStop_settle (Response ok (Some data)) s =
           s\<lparr> error := js_or (member data (js ''error'')) (Str (js ''Failed to process speech.'')),
              isTranslating := False \<rparr>"
  using assms
  by (auto simp: handleRecordingStop_settle_def handleRecordingStop_try_def and_then_def
      get_prop_total setters)

lemma handleRecordingStop_caught:
  "handleRecordingStop_settle NetworkFailure s =
     s\<lparr> error := Str (js ''Connection error.''), isTranslating := False \<rparr>"
  "handleRecordingStop_settle (Response ok None) s =
     s\<lparr> error := Str (js ''Connection error.''), isTranslating := False \<rparr>"
  "handleRecordingStop_settle (Response ok (Some Null)) s =
     s\<lparr> error := Str (js ''Connection error.''), isTranslating := False \<rparr>"
  by (auto simp: handleRecordingStop_settle_def handleRecordingStop_try_def and_then_def setters)

lemma handleRecordingStop_success:
  assumes "ok" "truthy (member data (js ''audio_url''))"
  shows "handleRecordingStop_settle (Response ok (Some data)) s =
           s\<lparr> translatedText := js_or (member data (js ''transcription'')) (Str []),
              played := played s @ [member data (js ''audio_url'')],
              isTranslating := False \<rparr>"
  using assms truthy_member [of data "js ''audio_url''"]
  by (auto simp: handleRecordingStop_settle_def handleRecordingStop_try_def and_then_def
      get_prop_total setters)

lemma handleTranslate_failure:
  assumes "data \<noteq> Null" "data \<noteq> Undefined" "\<not> (ok \<and> truthy (member data (js ''audio_url'')))"
  shows "handleTranslate_settle (Response ok (Some data)) s =
           s\<lparr> error := js_or (member data (js ''error'')) (Str (js ''Translation failed.'')),
              isTranslating := False \<rparr>"
  using assms
  by (auto simp: handleTranslate_settle_def handleTranslate_try_def and_then_def
      get_prop_total setters)

lemma handleTranslate_caught:
  "handleTranslate_settle NetworkFailure s =
     s\<lparr> error := Str (js ''Connection error.''), isTranslating := False \<rparr>"
  "handleTranslate_settle (Response ok None) s =
     s\<lparr> error := Str (js ''Connection error.''), isTranslating := False \<rparr>"
  "handleTranslate_settle (Response ok (Some Null)) s =
     s\<lparr> error := Str (js ''Connection error.''), isTranslating := False \<rparr>"
  by (auto simp: handleTranslate_settle_def handleTranslate_try_def and_then_def setters)

lemma handleTranslate_success:
  assumes "ok" "truthy (member data (js ''audio_url''))"
  shows "handleTranslate_settle (Response ok (Some data)) s =
           s\<lparr> translatedText := js_or (member data (js ''translated_text'')) (Str []),
              played := played s @ [member data (js ''audio_url'')],
              isTranslating := False \<rparr>"
  using assms truthy_member [of data "js ''audio_url''"]
  by (auto simp: handleTranslate_settle_def handleTranslate_try_def and_then_def
      get_prop_total setters)

lemma handleFileUpload_success:
  assumes "truthy (member data (js ''audio_url''))"
  shows "handleFileUpload_settle (Response ok (Some data)) s =
           s\<lparr> translatedText := js_or (member data (js ''transcription'')) (Str []),
              played := played s @ [member data (js ''audio_url'')] \<rparr>"
  using assms truthy_member [of data "js ''audio_url''"]
  by (auto simp: handleFileUpload_settle_def handleFileUpload_then_def and_then_def
      get_prop_total setters)

lemma render_error_message: "m \<noteq> [] \<Longrightarrow> render_error (s\<lparr> error := Str m, isTranslating := b \<rparr>) = Inr (Some (Str m))"
  by (simp add: render_error_def error_msg_def)

lemma js_or_string:
  "string_or_absent e \<Longrightarrow> d \<noteq> [] \<Longrightarrow>
     \<exists>m. m \<noteq> [] \<and> js_or e (Str d) = Str m \<and> (\<forall>x. e = Str x \<and> x \<noteq> [] \<longrightarrow> m = x)"
  by (cases e) (auto simp: js_or_def)

text \<open>
  C4, as the code has it. In the recording path and in the text path alike: when the
  request fails in the network, or the body is not JSON or is \<open>null\<close>, the message
  set and rendered is ``Connection error.''; when there is a body whose \<open>error\<close> is
  absent, \<open>null\<close> or a string, but the status is not a success or \<open>audio_url\<close> is
  missing, the message set and rendered is the body's \<open>error\<close> if it is a string that
  is not empty, and the path's default message otherwise. In every such case the view
  renders, nothing is played, the translating flag is cleared, and the rest of the
  state, the recording session included, is as it was.
\<close>

theorem backend_failure_shown_inline:
  "(r = NetworkFailure \<or> r = Response ok None \<or> r = Response ok (Some Null) \<longrightarrow>
      handleRecordingStop_settle r s =
        s\<lparr> error := Str (js ''Connection error.''), isTranslating := False \<rparr> \<and>
      handleTranslate_settle r s =
        s\<lparr> error := Str (js ''Connection error.''), isTranslating := False \<rparr> \<and>
      render_error (handleRecordingStop_settle r s) = Inr (Some (Str (js ''Connection error.''))) \<and>
      render_error (handleTranslate_settle r s) = Inr (Some (Str (js ''Connection error.'')))) \<and>
   (data \<noteq> Null \<and> data \<noteq> Undefined \<and> \<not> (ok \<and> truthy (member data (js ''audio_url''))) \<and>
    string_or_absent (member data (js ''error'')) \<longrightarrow>
      handleRecordingStop_settle (Response ok (Some data)) s =
        s\<lparr> error := js_or (member data (js ''error'')) (Str (js ''Failed to process speech.'')),
           isTranslating := False \<rparr> \<and>
      handleTranslate_settle (Response ok (Some data)) s =
        s\<lparr> error := js_or (member data (js ''error'')) (Str (js ''Translation failed.'')),
           isTranslating := False \<rparr> \<and>
      (\<exists>m. m \<noteq> [] \<and>
           js_or (member data (js ''error'')) (Str (js ''Failed to process speech.'')) = Str m \<and>
           render_error (handleRecordingStop_settle (Response ok (Some data)) s) = Inr (Some (Str m))) \<and>
      (\<exists>m. m \<noteq> [] \<and>
           js_or (member data (js ''error'')) (Str (js ''Translation failed.'')) = Str m \<and>
           render_error (handleTranslate_settle (Response ok (Some data)) s) = Inr (Some (Str m))))"
proof (intro conjI impI)
  assume r: "r = NetworkFailure \<or> r = Response ok None \<or> r = Response ok (Some Null)"
  then show a: "handleRecordingStop_settle r s =
        s\<lparr> error := Str (js ''Connection error.''), isTranslating := False \<rparr>"
    using handleRecordingStop_caught by blast
  from r show b: "handleTranslate_settle r s =
        s\<lparr> error := Str (js ''Connection error.''), isTranslating := False \<rparr>"
    using handleTranslate_caught by blast
  show "render_error (handleRecordingStop_settle r s) = Inr (Some (Str (js ''Connection error.'')))"
    unfolding a by (simp add: render_error_message js_nonempty)
  show "render_error (handleTranslate_settle r s) = Inr (Some (Str (js ''Connection error.'')))"
    unfolding b by (simp add: render_error_message js_nonempty)
next
  assume h: "data \<noteq> Null \<and> data \<noteq> Undefined \<and> \<not> (ok \<and> truthy (member data (js ''audio_url''))) \<and>
    string_or_absent (member data (js ''error''))"
  then show a: "handleRecordingStop_settle (Response ok (Some data)) s =
        s\<lparr> error := js_or (member data (js ''error'')) (Str (js ''Failed to process speech.'')),
           isTranslating := False \<rparr>"
    by (simp add: handleRecordingStop_failure)
  from h show b: "handleTranslate_settle (Response ok (Some data)) s =
        s\<lparr> error := js_or (member data (js ''error'')) (Str (js ''Translation failed.'')),
           isTranslating := False \<rparr>"
    by (simp add: handleTranslate_failure)
  from h obtain m where m: "m \<noteq> []"
      "js_or (member data (js ''error'')) (Str (js ''Failed to process speech.'')) = Str m"
    using js_or_string [of "member data (js ''error'')" "js ''Failed to process speech.''"]
    by (auto simp: js_nonempty)
  then show "\<exists>m. m \<noteq> [] \<and>
           js_or (member data (js ''error'')) (Str (js ''Failed to process speech.'')) = Str m \<and>
           render_error (handleRecordingStop_settle (Response ok (Some data)) s) = Inr (Some (Str m))"
    unfolding a by (auto simp: render_error_message)
  from h obtain n where n: "n \<noteq> []"
      "js_or (member data (js ''error'')) (Str (js ''Translation failed.'')) = Str n"
    using js_or_string [of "member data (js ''error'')" "js ''Translation failed.''"]
    by (auto simp: js_nonempty)
  then show "\<exists>m. m \<noteq> [] \<and>
           js_or (member data (js ''error'')) (Str (js ''Translation failed.'')) = Str m \<and>
           render_error (handleTranslate_settle (Response ok (Some data)) s) = Inr (Some (Str m))"
    unfolding b by (auto simp: render_error_message)
qed

theorem backend_failure_shown_inline_witness:
  "render_error (handleRecordingStop_settle NetworkFailure (mount True)) =
     Inr (Some (Str (js ''Connection error.''))) \<and>
   handleTranslate_settle
     (Response False (Some (Obj [(js ''audio_url'', Str (js ''/a.mp3'')), (js ''error'', Str (js ''down''))])))
     (mount True) =
     (mount True)\<lparr> error := Str (js ''down''), isTranslating := False \<rparr> \<and>
   render_error (handleTranslate_settle
     (Response False (Some (Obj [(js ''audio_url'', Str (js ''/a.mp3'')), (js ''error'', Str (js ''down''))])))
     (mount True)) = Inr (Some (Str (js ''down'')))"
proof -
  let ?data = "Obj [(js ''audio_url'', Str (js ''/a.mp3'')), (js ''error'', Str (js ''down''))]"
  have e: "member ?data (js ''error'') = Str (js ''down'')"
    by (simp add: member_def js_eq_iff)
  have o: "js_or (Str (js ''down'')) (Str (js ''Translation failed.'')) = Str (js ''down'')"
    by (simp add: js_or_def js_nonempty)
  have h: "?data \<noteq> Null \<and> ?data \<noteq> Undefined \<and>
      \<not> (False \<and> truthy (member ?data (js ''audio_url''))) \<and>
      string_or_absent (member ?data (js ''error''))"
    by (simp add: e)
  have "render_error (handleRecordingStop_settle NetworkFailure (mount True)) =
     Inr (Some (Str (js ''Connection error.'')))"
    using backend_failure_shown_inline [of NetworkFailure True "mount True" "Num 0"] by blast
  moreover have "handleTranslate_settle (Response False (Some ?data)) (mount True) =
      (mount True)\<lparr> error := Str (js ''down''), isTranslating := False \<rparr> \<and>
    render_error (handleTranslate_settle (Response False (Some ?data)) (mount True)) =
      Inr (Some (Str (js ''down'')))"
    using backend_failure_shown_inline [of NetworkFailure False "mount True" ?data] h
    unfolding e o by auto
  ultimately show ?thesis by blast
qed

text \<open>
  C4 as stated fails: the handlers pass the body's \<open>error\<close> to \<open>setError\<close> as it is.
  For a response with status 400 and body \<open>{"error": {"code": 5}}\<close> the state holds
  an object, which the paragraph of line 346 cannot render: the view is removed.
\<close>

theorem object_error_removes_the_view:
  "error (handleTranslate_settle
            (Response False (Some (Obj [(js ''error'', Obj [(js ''code'', Num 5)])]))) (mount True)) =
     Obj [(js ''code'', Num 5)] \<and>
   render_error (handleTranslate_settle
            (Response False (Some (Obj [(js ''error'', Obj [(js ''code'', Num 5)])]))) (mount True)) =
     Inl InvariantViolation \<and>
   render_error (handleRecordingStop_settle
            (Response False (Some (Obj [(js ''error'', Obj [(js ''code'', Num 5)])]))) (mount True)) =
     Inl InvariantViolation"
proof -
  let ?data = "Obj [(js ''error'', Obj [(js ''code'', Num 5)])]"
  have e: "member ?data (js ''error'') = Obj [(js ''code'', Num 5)]"
    by (simp add: member_def)
  have "handleTranslate_settle (Response False (Some ?data)) (mount True) =
      (mount True)\<lparr> error := Obj [(js ''code'', Num 5)], isTranslating := False \<rparr>"
    by (simp add: handleTranslate_failure e js_or_def)
  moreover have "handleRecordingStop_settle (Response False (Some ?data)) (mount True) =
      (mount True)\<lparr> error := Obj [(js ''code'', Num 5)], isTranslating := False \<rparr>"
    by (simp add: handleRecordingStop_failure e js_or_def)
  ultimately show ?thesis
    by (simp add: render_error_def error_msg_def)
qed

text \<open>
  C9. In the upload path a body whose \<open>audio_url\<close> is truthy is played whatever the
  status of the response, and no error is set. The recording path and the text path
  play the same body only with a success status; with another status they play
  nothing and show a message.
\<close>

theorem upload_plays_whatever_the_status:
  assumes "truthy (member data (js ''audio_url''))"
  shows "handleFileUpload_settle (Response ok (Some data)) s =
           s\<lparr> translatedText := js_or (member data (js ''transcription'')) (Str []),
              played := played s @ [member data (js ''audio_url'')] \<rparr> \<and>
         error (handleFileUpload_settle (Response ok (Some data)) s) = error s \<and>
         played (handleRecordingStop_settle (Response True (Some data)) s) =
           played s @ [member data (js ''audio_url'')] \<and>
         played (handleTranslate_settle (Response True (Some data)) s) =
           played s @ [member data (js ''audio_url'')] \<and>
         played (handleRecordingStop_settle (Response False (Some data)) s) = played s \<and>
         played (handleTranslate_settle (Response False (Some data)) s) = played s \<and>
         error_msg (handleRecordingStop_settle (Response False (Some data)) s) \<noteq> None \<and>
         error_msg (handleTranslate_settle (Response False (Some data)) s) \<noteq> None"
  using assms truthy_member [OF assms] js_or_message
  by (simp add: handleFileUpload_success handleRecordingStop_success handleTranslate_success
      handleRecordingStop_failure handleTranslate_failure error_msg_def)

theorem upload_plays_whatever_the_status_witness:
  "played (handleFileUpload_settle
             (Response False (Some (Obj [(js ''audio_url'', Str (js ''/a.mp3''))]))) (mount True)) =
     played (mount True) @ [Str (js ''/a.mp3'')] \<and>
   error (handleFileUpload_settle
             (Response False (Some (Obj [(js ''audio_url'', Str (js ''/a.mp3''))]))) (mount True)) =
     error (mount True) \<and>
   played (handleRecordingStop_settle
             (Response False (Some (Obj [(js ''audio_url'', Str (js ''/a.mp3''))]))) (mount True)) =
     played (mount True)"
proof -
  have m: "member (Obj [(js ''audio_url'', Str (js ''/a.mp3''))]) (js ''audio_url'') = Str (js ''/a.mp3'')"
    by (simp add: member_def)
  then have "truthy (member (Obj [(js ''audio_url'', Str (js ''/a.mp3''))]) (js ''audio_url''))"
    by (simp add: js_nonempty)
  from upload_plays_whatever_the_status [OF this, of False "mount True"] m show ?thesis
    by simp
qed

section \<open>Properties: a start that fails\<close>

lemma startRecording_unsupported:
  "\<not> media_supported s \<Longrightarrow>
     startRecording r s =
       s\<lparr> error := Str [], alerts := alerts s @ [js ''Audio recording not supported in this browser.''] \<rparr>"
  by (simp add: startRecording_def startRecording_begin_def setters Let_def)

lemma startRecording_denied:
  "media_supported s \<Longrightarrow>
     startRecording (Denied m) s = s\<lparr> error := Str (js ''Microphone access denied or error: '' @ m) \<rparr>"
  by (simp add: startRecording_def startRecording_begin_def startRecording_settle_def setters Let_def)

lemma startRecording_settle_denied:
  "startRecording_settle (Denied m) s =
     s\<lparr> error := Str (js ''Microphone access denied or error: '' @ m), start_waiting := start_waiting s - 1 \<rparr>"
  by (simp add: startRecording_settle_def setters Let_def)

text \<open>
  C5, as the code has it. On a platform without capture support \<open>startRecording\<close>
  clears the inline message and reports through \<open>alert\<close>: nothing is shown inline.
  When \<open>getUserMedia\<close> rejects, the inline message is ``Microphone access denied or
  error: '' followed by the error's message. In both cases nothing else changes:
  \<open>recording\<close> stays as it was and the chunk array is untouched, also when other events
  come between the call and the rejection.
\<close>

theorem failed_start_stays_idle:
  "(\<not> media_supported s \<longrightarrow>
      startRecording r s =
        s\<lparr> error := Str [], alerts := alerts s @ [js ''Audio recording not supported in this browser.''] \<rparr> \<and>
      error_msg (startRecording r s) = None) \<and>
   (media_supported s \<longrightarrow>
      startRecording (Denied m) s = s\<lparr> error := Str (js ''Microphone access denied or error: '' @ m) \<rparr> \<and>
      error_msg (startRecording (Denied m) s) = Some (Str (js ''Microphone access denied or error: '' @ m))) \<and>
   recording (startRecording_begin s) = recording s \<and>
   audioChunksRef (startRecording_begin s) = audioChunksRef s \<and>
   recording (startRecording_settle (Denied m) s) = recording s \<and>
   audioChunksRef (startRecording_settle (Denied m) s) = audioChunksRef s"
  by (simp add: startRecording_unsupported startRecording_denied startRecording_settle_denied
      error_msg_def js_nonempty startRecording_begin_def setters Let_def)

theorem failed_start_stays_idle_witness:
  "error_msg (startRecording Granted (mount False)) = None \<and>
   error_msg (startRecording (Denied (js ''Permission denied'')) (mount True)) =
     Some (Str (js ''Microphone access denied or error: '' @ js ''Permission denied''))"
proof -
  have unsupported: "\<not> media_supported (mount False)" and supported: "media_supported (mount True)"
    by (simp_all add: mount_supported)
  from unsupported have "error_msg (startRecording Granted (mount False)) = None"
    using failed_start_stays_idle [of "mount False" Granted "[]"] by blast
  moreover from supported
  have "error_msg (startRecording (Denied (js ''Permission denied'')) (mount True)) =
     Some (Str (js ''Microphone access denied or error: '' @ js ''Permission denied''))"
    using failed_start_stays_idle [of "mount True" Granted "js ''Permission denied''"] by blast
  ultimately show ?thesis by blast
qed

text \<open>
  C5 as stated fails: without capture support no inline message is shown after
  \<open>startRecording\<close>; the report is the \<open>alert\<close>.
\<close>

theorem unsupported_start_shows_no_inline_message:
  "error_msg (startRecording Granted (mount False)) = None \<and>
   alerts (startRecording Granted (mount False)) = [js ''Audio recording not supported in this browser.'']"
  by (simp add: startRecording_def startRecording_begin_def setters Let_def error_msg_def
      mount_def commit_def init_def waveform_effect_def cancel_frame_def close_context_def)

section \<open>Properties: a response after unmount\<close>

lemma unmount_keeps:
  "requests (unmount s) = requests s"
  "played (unmount s) = played s"
  by (simp_all add: unmount_def waveform_cleanup_def cancel_frame_def close_context_def
      split: option.splits)

lemma handleRecordingStop_played:
  "played (handleRecordingStop_settle r s) = played s @ audio_to_play r"
proof (cases r)
  case NetworkFailure
  then show ?thesis by (simp add: handleRecordingStop_caught audio_to_play_def)
next
  case (Response ok body)
  show ?thesis
  proof (cases body)
    case None
    with Response show ?thesis by (simp add: handleRecordingStop_caught audio_to_play_def)
  next
    case (Some data)
    show ?thesis
    proof (cases "ok \<and> truthy (member data (js ''audio_url''))")
      case True
      with Response Some show ?thesis
        by (simp add: handleRecordingStop_success audio_to_play_def)
    next
      case False
      show ?thesis
      proof (cases "data = Null \<or> data = Undefined")
        case True
        with Response Some show ?thesis
          by (auto simp: handleRecordingStop_settle_def handleRecordingStop_try_def and_then_def
              setters audio_to_play_def member_Null)
      next
        case False
        with \<open>\<not> (ok \<and> truthy (member data (js ''audio_url'')))\<close> Response Some show ?thesis
          by (simp add: handleRecordingStop_failure audio_to_play_def)
      qed
    qed
  qed
qed

lemma handleTranslate_played:
  "played (handleTranslate_settle r s) = played s @ audio_to_play r"
proof (cases r)
  case NetworkFailure
  then show ?thesis by (simp add: handleTranslate_caught audio_to_play_def)
next
  case (Response ok body)
  show ?thesis
  proof (cases body)
    case None
    with Response show ?thesis by (simp add: handleTranslate_caught audio_to_play_def)
  next
    case (Some data)
    show ?thesis
    proof (cases "ok \<and> truthy (member data (js ''audio_url''))")
      case True
      with Response Some show ?thesis
        by (simp add: handleTranslate_success audio_to_play_def)
    next
      case False
      show ?thesis
      proof (cases "data = Null \<or> data = Undefined")
        case True
        with Response Some show ?thesis
          by (auto simp: handleTranslate_settle_def handleTranslate_try_def and_then_def
              setters audio_to_play_def member_Null)
      next
        case False
        with \<open>\<not> (ok \<and> truthy (member data (js ''audio_url'')))\<close> Response Some show ?thesis
          by (simp add: handleTranslate_failure audio_to_play_def)
      qed
    qed
  qed
qed

lemma settle_ignores_mounted:
  "handleRecordingStop_settle r (s\<lparr> mounted := b \<rparr>) = (handleRecordingStop_settle r s)\<lparr> mounted := b \<rparr>"
  "handleTranslate_settle r (s\<lparr> mounted := b \<rparr>) = (handleTranslate_settle r s)\<lparr> mounted := b \<rparr>"
  by (auto simp: handleRecordingStop_settle_def handleRecordingStop_try_def
      handleTranslate_settle_def handleTranslate_try_def and_then_def setters
      split: fetch_result.splits option.splits sum.splits)

lemma settle_catches:
  "handleRecordingStop_try r s = Inl e \<Longrightarrow>
     handleRecordingStop_settle r s = s\<lparr> error := Str (js ''Connection error.''), isTranslating := False \<rparr>"
  "handleTranslate_try r s = Inl e \<Longrightarrow>
     handleTranslate_settle r s = s\<lparr> error := Str (js ''Connection error.''), isTranslating := False \<rparr>"
  by (simp_all add: handleRecordingStop_settle_def handleTranslate_settle_def setters)

text \<open>
  C7, as the code has it. Unmounting cancels no request. A response that arrives after
  the unmount goes through the same handler as before it, which does not read whether
  the view is mounted: every exception of the handling is caught and becomes the
  message ``Connection error.'', and a success response with \<open>audio_url\<close> still has
  its audio played. The handling is a no-op only for what it does through state
  setters.
\<close>

theorem response_after_unmount_is_still_handled:
  "requests (unmount s) = requests s \<and>
   played (handleRecordingStop_settle r (unmount s)) = played s @ audio_to_play r \<and>
   played (handleTranslate_settle r (unmount s)) = played s @ audio_to_play r \<and>
   handleRecordingStop_settle r (s\<lparr> mounted := b \<rparr>) = (handleRecordingStop_settle r s)\<lparr> mounted := b \<rparr> \<and>
   handleTranslate_settle r (s\<lparr> mounted := b \<rparr>) = (handleTranslate_settle r s)\<lparr> mounted := b \<rparr> \<and>
   (handleRecordingStop_try r s = Inl e \<longrightarrow>
      handleRecordingStop_settle r s =
        s\<lparr> error := Str (js ''Connection error.''), isTranslating := False \<rparr>) \<and>
   (handleTranslate_try r s = Inl e \<longrightarrow>
      handleTranslate_settle r s =
        s\<lparr> error := Str (js ''Connection error.''), isTranslating := False \<rparr>)"
  using settle_catches [of r s e]
  by (simp add: unmount_keeps handleRecordingStop_played handleTranslate_played settle_ignores_mounted)

theorem response_after_unmount_witness:
  "handleRecordingStop_settle NetworkFailure (unmount (mount True)) =
     (unmount (mount True))\<lparr> error := Str (js ''Connection error.''), isTranslating := False \<rparr> \<and>
   played (handleTranslate_settle (Response True (Some (Obj [(js ''audio_url'', Str (js ''/a.mp3''))])))
             (unmount (mount True))) =
     played (mount True) @ [Str (js ''/a.mp3'')]"
proof -
  have "handleRecordingStop_try NetworkFailure (unmount (mount True)) = Inl TypeError"
    by (simp add: handleRecordingStop_try_def)
  moreover
  have "audio_to_play (Response True (Some (Obj [(js ''audio_url'', Str (js ''/a.mp3''))]))) =
      [Str (js ''/a.mp3'')]"
    by (simp add: audio_to_play_def member_def js_nonempty)
  ultimately show ?thesis
    using response_after_unmount_is_still_handled
            [of "unmount (mount True)" NetworkFailure True TypeError]
      response_after_unmount_is_still_handled
            [of "mount True" "Response True (Some (Obj [(js ''audio_url'', Str (js ''/a.mp3''))]))" True TypeError]
    by simp
qed

text \<open>
  C7 as stated fails: a success response delivered after the view was unmounted is not
  discarded; its audio is played.
\<close>

theorem response_after_unmount_is_played:
  "\<not> mounted (unmount (handleRecordingStop_begin (mount True))) \<and>
   played (unmount (handleRecordingStop_begin (mount True))) = [] \<and>
   played (handleRecordingStop_settle
             (Response True (Some (Obj [(js ''audio_url'', Str (js ''/a.mp3''))])))
             (unmount (handleRecordingStop_begin (mount True)))) = [Str (js ''/a.mp3'')]"
  by (simp add: handleRecordingStop_played unmount_keeps audio_to_play_def member_def js_nonempty
      handleRecordingStop_begin_def setters Let_def unmount_def
      mount_def commit_def init_def waveform_effect_def cancel_frame_def close_context_def)

section \<open>Properties: the profile record\<close>

lemma split_when_unfold:
  "split_when p s =
     takeWhile (\<lambda>c. \<not> p c) s #
       (case dropWhile (\<lambda>c. \<not> p c) s of [] \<Rightarrow> [] | c # r \<Rightarrow> split_when p r)"
  by (induction s) auto

lemma split_when_first: "at_index (split_when p s) 0 = Str (takeWhile (\<lambda>c. \<not> p c) s)"
  by (subst split_when_unfold) (simp add: at_index_def)

lemma split_when_second:
  "js_or (at_index (split_when p s) 1) (Str []) =
     Str (takeWhile (\<lambda>c. \<not> p c) (drop 1 (dropWhile (\<lambda>c. \<not> p c) s)))"
proof (cases "dropWhile (\<lambda>c. \<not> p c) s")
  case Nil
  have "split_when p s = [takeWhile (\<lambda>c. \<not> p c) s]"
    by (subst split_when_unfold) (simp only: Nil list.case)
  then show ?thesis unfolding Nil by (simp add: at_index_def js_or_def)
next
  case (Cons c r)
  have "split_when p s = takeWhile (\<lambda>c. \<not> p c) s # split_when p r"
    by (subst split_when_unfold) (simp only: Cons list.case)
  moreover have "split_when p r = takeWhile (\<lambda>c. \<not> p c) r #
       (case dropWhile (\<lambda>c. \<not> p c) r of [] \<Rightarrow> [] | c # r' \<Rightarrow> split_when p r')"
    by (rule split_when_unfold)
  ultimately have "at_index (split_when p s) 1 = Str (takeWhile (\<lambda>c. \<not> p c) r)"
    by (simp add: at_index_def)
  then show ?thesis unfolding Cons by (simp add: js_or_Str)
qed

lemma split_when_cong: "(\<And>c. c \<in> set s \<Longrightarrow> p c = q c) \<Longrightarrow> split_when p s = split_when q s"
  by (induction s) auto

lemma is_js_space_0x20: "is_js_space 0x20"
  by (simp add: is_js_space_def)

lemma single_spaced_words: "single_spaced s \<Longrightarrow> spec_words s = split_space s"
proof -
  assume a: "single_spaced s"
  then have "\<And>c. c \<in> set s \<Longrightarrow> is_js_space c = (c = 0x20)"
    using is_js_space_0x20 by (auto simp: single_spaced_def)
  then have eq: "split_when is_js_space s = split_space s"
    unfolding split_space_def by (rule split_when_cong)
  from a have "[] \<notin> set (split_when is_js_space s)" by (simp add: single_spaced_def)
  then have "filter (\<lambda>w. w \<noteq> []) (split_when is_js_space s) = split_when is_js_space s"
    by (simp add: filter_id_conv) metis
  with eq show ?thesis by (simp add: spec_words_def)
qed

lemma single_spaced_agree:
  assumes "single_spaced s"
  shows "at_index (split_space s) 0 = spec_word s 0"
    and "js_or (at_index (split_space s) 1) (Str []) = spec_word s 1"
proof -
  have ne: "split_space s \<noteq> []"
    unfolding split_space_def by (subst split_when_unfold) simp
  from assms have w: "spec_words s = split_space s" by (rule single_spaced_words)
  from ne show "at_index (split_space s) 0 = spec_word s 0"
    by (simp add: at_index_def spec_word_def w)
  show "js_or (at_index (split_space s) 1) (Str []) = spec_word s 1"
    by (simp add: at_index_def spec_word_def w js_or_def)
qed

text \<open>
  C10, as the code has it. For an identity with no stored record: with a \<open>null\<close>
  display name the handler throws and writes nothing; otherwise it writes and shows a
  record whose \<open>firstName\<close> is the display name up to its first space (U+0020) and
  whose \<open>lastName\<close> is what lies between the first space and the second, empty when
  there is no space. For a name whose words are separated by single spaces, with no
  other white space, these are its first word and its second word (empty when there is
  one word only).
\<close>

theorem new_profile_from_display_name:
  assumes "store pg (uid u) = None"
  shows "(displayName u = None \<longrightarrow> onAuthStateChanged_profile (Some u) pg = Inl TypeError) \<and>
         (\<forall>n. displayName u = Some n \<longrightarrow>
            (\<exists>d. onAuthStateChanged_profile (Some u) pg =
                    Inr (pg\<lparr> store := (store pg)(uid u \<mapsto> d), userDetails := Some d \<rparr>) \<and>
                 email' d = email u \<and> photo d = photoURL u \<and>
                 firstName d = Str (takeWhile (\<lambda>c. c \<noteq> 0x20) n) \<and>
                 lastName d = Str (takeWhile (\<lambda>c. c \<noteq> 0x20) (drop 1 (dropWhile (\<lambda>c. c \<noteq> 0x20) n))) \<and>
                 (single_spaced n \<longrightarrow> firstName d = spec_word n 0 \<and> lastName d = spec_word n 1)))"
proof (intro conjI impI allI)
  assume "displayName u = None"
  with assms show "onAuthStateChanged_profile (Some u) pg = Inl TypeError"
    by (simp add: onAuthStateChanged_profile_def userData_def)
next
  fix n
  assume n: "displayName u = Some n"
  define d where "d = \<lparr> email' = email u, firstName = at_index (split_space n) 0,
    lastName = js_or (at_index (split_space n) 1) (Str []), photo = photoURL u \<rparr>"
  have "userData u = Inr d"
    by (simp add: userData_def n d_def)
  with assms have written: "onAuthStateChanged_profile (Some u) pg =
      Inr (pg\<lparr> store := (store pg)(uid u \<mapsto> d), userDetails := Some d \<rparr>)"
    by (simp add: onAuthStateChanged_profile_def)
  have first: "firstName d = at_index (split_space n) 0"
    and second: "lastName d = js_or (at_index (split_space n) 1) (Str [])"
    and rest: "email' d = email u" "photo d = photoURL u"
    by (simp_all add: d_def)
  have "firstName d = Str (takeWhile (\<lambda>c. c \<noteq> 0x20) n)"
    unfolding first split_space_def split_when_first ..
  moreover have "lastName d = Str (takeWhile (\<lambda>c. c \<noteq> 0x20) (drop 1 (dropWhile (\<lambda>c. c \<noteq> 0x20) n)))"
    unfolding second split_space_def split_when_second ..
  moreover have "single_spaced n \<longrightarrow> firstName d = spec_word n 0 \<and> lastName d = spec_word n 1"
    unfolding first second using single_spaced_agree [of n] by blast
  ultimately show "\<exists>d. onAuthStateChanged_profile (Some u) pg =
                    Inr (pg\<lparr> store := (store pg)(uid u \<mapsto> d), userDetails := Some d \<rparr>) \<and>
                 email' d = email u \<and> photo d = photoURL u \<and>
                 firstName d = Str (takeWhile (\<lambda>c. c \<noteq> 0x20) n) \<and>
                 lastName d = Str (takeWhile (\<lambda>c. c \<noteq> 0x20) (drop 1 (dropWhile (\<lambda>c. c \<noteq> 0x20) n))) \<and>
                 (single_spaced n \<longrightarrow> firstName d = spec_word n 0 \<and> lastName d = spec_word n 1)"
    using written rest by blast
qed

theorem new_profile_from_display_name_witness:
  "onAuthStateChanged_profile
     (Some \<lparr> uid = js ''u1'', email = None, displayName = None, photoURL = None \<rparr>)
     \<lparr> userDetails = None, store = Map.empty \<rparr> = Inl TypeError \<and>
   (\<exists>d. onAuthStateChanged_profile
          (Some \<lparr> uid = js ''u2'', email = None, displayName = Some (js ''Ada Lovelace''), photoURL = None \<rparr>)
          \<lparr> userDetails = None, store = Map.empty \<rparr> =
          Inr \<lparr> userDetails = Some d, store = [js ''u2'' \<mapsto> d] \<rparr> \<and>
        firstName d = Str (js ''Ada'') \<and> lastName d = Str (js ''Lovelace'') \<and>
        firstName d = spec_word (js ''Ada Lovelace'') 0 \<and>
        lastName d = spec_word (js ''Ada Lovelace'') 1)"
proof -
  let ?pg = "\<lparr> userDetails = None, store = Map.empty \<rparr>"
  let ?u1 = "\<lparr> uid = js ''u1'', email = None, displayName = None, photoURL = None \<rparr>"
  let ?u2 = "\<lparr> uid = js ''u2'', email = None, displayName = Some (js ''Ada Lovelace''), photoURL = None \<rparr>"
  have ss: "single_spaced (js ''Ada Lovelace'')"
    by (simp add: single_spaced_def js_def is_js_space_def)
  have f: "takeWhile (\<lambda>c. c \<noteq> 0x20) (js ''Ada Lovelace'') = js ''Ada''"
    and l: "takeWhile (\<lambda>c. c \<noteq> 0x20) (drop 1 (dropWhile (\<lambda>c. c \<noteq> 0x20) (js ''Ada Lovelace''))) =
             js ''Lovelace''"
    by (simp_all add: js_def)
  have "onAuthStateChanged_profile (Some ?u1) ?pg = Inl TypeError"
    using new_profile_from_display_name [of ?pg ?u1] by simp
  moreover
  have "\<exists>d. onAuthStateChanged_profile (Some ?u2) ?pg =
          Inr \<lparr> userDetails = Some d, store = [js ''u2'' \<mapsto> d] \<rparr> \<and>
        firstName d = Str (js ''Ada'') \<and> lastName d = Str (js ''Lovelace'') \<and>
        firstName d = spec_word (js ''Ada Lovelace'') 0 \<and>
        lastName d = spec_word (js ''Ada Lovelace'') 1"
  proof -
    have pre: "store ?pg (uid ?u2) = None" and name: "displayName ?u2 = Some (js ''Ada Lovelace'')"
      by simp_all
    from new_profile_from_display_name [OF pre] name obtain d where
      w: "onAuthStateChanged_profile (Some ?u2) ?pg =
            Inr (?pg\<lparr> store := (store ?pg)(uid ?u2 \<mapsto> d), userDetails := Some d \<rparr>)"
      and fn: "firstName d = Str (takeWhile (\<lambda>c. c \<noteq> 0x20) (js ''Ada Lovelace''))"
      and ln: "lastName d =
            Str (takeWhile (\<lambda>c. c \<noteq> 0x20) (drop 1 (dropWhile (\<lambda>c. c \<noteq> 0x20) (js ''Ada Lovelace''))))"
      and sp: "single_spaced (js ''Ada Lovelace'') \<longrightarrow>
            firstName d = spec_word (js ''Ada Lovelace'') 0 \<and> lastName d = spec_word (js ''Ada Lovelace'') 1"
      by blast
    from w have "onAuthStateChanged_profile (Some ?u2) ?pg =
        Inr \<lparr> userDetails = Some d, store = [js ''u2'' \<mapsto> d] \<rparr>"
      by simp
    moreover from fn f have "firstName d = Str (js ''Ada'')" by simp
    moreover from ln l have "lastName d = Str (js ''Lovelace'')" by simp
    ultimately show ?thesis using sp ss by blast
  qed
  ultimately show ?thesis by blast
qed

text \<open>
  C10 as stated fails: for the display name ``John  Doe'', with two spaces, the second
  word is ``Doe'' and the \<open>lastName\<close> written is empty.
\<close>

theorem second_word_is_not_last_name:
  "userData \<lparr> uid = js ''u1'', email = None, displayName = Some (js ''John  Doe''), photoURL = None \<rparr>
     = Inr \<lparr> email' = None, firstName = Str (js ''John''), lastName = Str [], photo = None \<rparr>
   \<and> spec_word (js ''John  Doe'') 1 = Str (js ''Doe'')"
  by (simp add: userData_def split_space_def at_index_def js_or_def spec_word_def spec_words_def
      js_def is_js_space_def)

section \<open>Properties: the effect's teardown and the recorders of a run\<close>

lemma cancel_frame_eq:
  "cancel_frame s = s\<lparr> pending_frames := drop_ref (animationIdRef s) (pending_frames s) \<rparr>"
  by (simp add: cancel_frame_def split: option.splits)

lemma close_context_eq:
  "close_context s =
     s\<lparr> open_contexts := drop_ref (audioContextRef s) (open_contexts s),
        closed_contexts := closed_contexts s @ ref_list (audioContextRef s),
        audioContextRef := None,
        analyserRef := clear_with (audioContextRef s) (analyserRef s),
        sourceRef := clear_with (audioContextRef s) (sourceRef s) \<rparr>"
  by (simp add: close_context_def split: option.splits)

lemma core_cleanup:
  "core s \<Longrightarrow> core ((waveform_cleanup s)\<lparr> has_cleanup := False, effect_dep := Some False \<rparr>)"
  by (auto simp: core_def waveform_cleanup_def cancel_frame_eq close_context_eq
      split: option.splits)

lemma ctx_inv_mount: "ctx_inv (mount b)"
  by (simp add: ctx_inv_def core_def mount_def commit_def init_def waveform_effect_def cancel_frame_eq
      close_context_eq)

lemma core_stopRecording: "core s \<Longrightarrow> core (stopRecording s)"
  by (auto simp: core_def stopRecording_def setters split: option.splits)

lemma core_startRecording_begin: "core s \<Longrightarrow> core (startRecording_begin s)"
  by (auto simp: core_def startRecording_begin_def setters Let_def)

lemma core_startRecording_settle: "core s \<Longrightarrow> core (startRecording_settle r s)"
  by (cases r) (auto simp: core_def startRecording_settle_def setters Let_def less_Suc_eq)

lemma core_drawWaveform: "core s \<Longrightarrow> core (fst (drawWaveform s))"
  by (auto simp: core_def drawWaveform_def Let_def less_Suc_eq split: option.splits)

lemma core_frame_fire: "core s \<Longrightarrow> core (frame_fire f s)"
proof -
  assume "core s"
  then have "core (s\<lparr> pending_frames := removeAll f (pending_frames s) \<rparr>)"
    by (simp add: core_def)
  then show ?thesis
    using \<open>core s\<close> by (simp add: frame_fire_def core_drawWaveform)
qed

lemma core_viz_catch: "core s \<Longrightarrow> core (viz_catch m s)"
  by (auto simp: core_def viz_catch_def setters)

lemma core_viz_then: "core s \<Longrightarrow> core (fst (viz_then s))"
proof -
  assume c: "core s"
  show ?thesis
  proof (cases "audioContextRef s")
    case None
    with c show ?thesis by (auto simp: viz_then_def Let_def core_def less_Suc_eq)
  next
    case (Some a)
    let ?s3 = "s\<lparr> next_id := Suc (next_id s), live_streams := live_streams s @ [next_id s],
                   sourceRef := Some (next_id s), analyserRef := Some a \<rparr>"
    from c Some have "core ?s3" by (auto simp: core_def less_Suc_eq)
    then have "core (fst (drawWaveform ?s3))" by (rule core_drawWaveform)
    with Some show ?thesis by (simp add: viz_then_def Let_def)
  qed
qed

lemma core_viz_settle: "core s \<Longrightarrow> core (viz_settle r s)"
proof -
  assume c: "core s"
  then have c0: "core (s\<lparr> viz_waiting := viz_waiting s - 1 \<rparr>)" by (simp add: core_def)
  show ?thesis
  proof (cases r)
    case Granted
    with core_viz_then [OF c0] show ?thesis
      by (auto simp: viz_settle_def Let_def core_viz_catch split: prod.splits option.splits)
  next
    case (Denied m)
    with core_viz_catch [OF c0] show ?thesis by (simp add: viz_settle_def Let_def)
  qed
qed

lemma core_unmount: "core s \<Longrightarrow> core (unmount s)"
  by (auto simp: core_def unmount_def waveform_cleanup_def cancel_frame_eq close_context_eq
      split: option.splits)

lemma core_handle: "core s \<Longrightarrow> core (handle e s)"
  by (cases e) (simp_all add: core_stopRecording core_startRecording_begin core_startRecording_settle
      core_viz_settle core_frame_fire core_unmount)

lemma ctx_inv_commit: "core s \<Longrightarrow> ctx_inv (commit s)"
  by (auto simp: ctx_inv_def core_def commit_def waveform_effect_def waveform_cleanup_def
      cancel_frame_eq close_context_eq Let_def less_Suc_eq split: option.splits)

lemma ctx_inv_dispatch: "ctx_inv s \<Longrightarrow> ctx_inv (dispatch e s)"
proof -
  assume "ctx_inv s"
  then have "core s" by (simp add: ctx_inv_def)
  then show ?thesis by (simp add: dispatch_def ctx_inv_commit core_handle)
qed

lemma ctx_inv_run: "ctx_inv s \<Longrightarrow> ctx_inv (run evs s)"
  unfolding run_def by (induction evs arbitrary: s) (simp_all add: ctx_inv_dispatch)


lemma drop_ref_idem: "drop_ref r (drop_ref r xs) = drop_ref r xs"
  by (cases r) simp_all

lemma waveform_cleanup_idem: "waveform_cleanup (waveform_cleanup s) = waveform_cleanup s"
  by (simp add: waveform_cleanup_def cancel_frame_eq close_context_eq drop_ref_idem)


lemma commit_leave:
  assumes "mounted h" "has_cleanup h" "\<not> recording h" "effect_dep h = Some True"
  shows "commit h = (waveform_effect (waveform_cleanup h))\<lparr> effect_dep := Some False \<rparr>"
  using assms by (simp add: commit_def)

lemma effect_idle_fields:
  assumes "\<not> recording h"
  shows "audioContextRef (waveform_effect h) = None"
    and "open_contexts (waveform_effect h) =
           drop_ref (audioContextRef h) (open_contexts h)"
    and "closed_contexts (waveform_effect h) = closed_contexts h @ ref_list (audioContextRef h)"
    and "live_streams (waveform_effect h) = live_streams h"
    and "pending_frames (waveform_effect h) =
           drop_ref (animationIdRef h) (pending_frames h)"
    and "animationIdRef (waveform_effect h) = animationIdRef h"
    and "mounted (waveform_effect h) = mounted h"
    and "recording (waveform_effect h) = recording h"
  using assms by (simp_all add: waveform_effect_def cancel_frame_eq close_context_eq Let_def)

lemma cleanup_fields:
  shows "audioContextRef (waveform_cleanup h) = None"
    and "open_contexts (waveform_cleanup h) =
           drop_ref (audioContextRef h) (open_contexts h)"
    and "closed_contexts (waveform_cleanup h) = closed_contexts h @ ref_list (audioContextRef h)"
    and "live_streams (waveform_cleanup h) = live_streams h"
    and "pending_frames (waveform_cleanup h) =
           drop_ref (animationIdRef h) (pending_frames h)"
    and "animationIdRef (waveform_cleanup h) = animationIdRef h"
    and "mounted (waveform_cleanup h) = mounted h"
    and "recording (waveform_cleanup h) = recording h"
  by (simp_all add: waveform_cleanup_def cancel_frame_eq close_context_eq)


lemma commit_leave_fields:
  assumes "mounted h" "has_cleanup h" "\<not> recording h" "effect_dep h = Some True"
  shows "audioContextRef (commit h) = None"
    and "open_contexts (commit h) = drop_ref (audioContextRef h) (open_contexts h)"
    and "closed_contexts (commit h) = closed_contexts h @ ref_list (audioContextRef h)"
    and "live_streams (commit h) = live_streams h"
    and "pending_frames (commit h) = drop_ref (animationIdRef h) (pending_frames h)"
  using assms
  by (simp_all add: commit_leave effect_idle_fields cleanup_fields drop_ref_idem)

lemma unmount_fields:
  assumes "mounted h" "has_cleanup h"
  shows "audioContextRef (unmount h) = None"
    and "open_contexts (unmount h) = drop_ref (audioContextRef h) (open_contexts h)"
    and "closed_contexts (unmount h) = closed_contexts h @ ref_list (audioContextRef h)"
    and "live_streams (unmount h) = live_streams h"
    and "pending_frames (unmount h) = drop_ref (animationIdRef h) (pending_frames h)"
    and "commit (unmount h) = unmount h"
  using assms
  by (simp_all add: unmount_def cleanup_fields commit_def)

lemma stop_fields:
  assumes "mounted s" "recording s" "mediaRecorderRef s \<noteq> None"
  shows "mounted (handle ClickMic s)" and "\<not> recording (handle ClickMic s)"
    and "has_cleanup (handle ClickMic s) = has_cleanup s"
    and "effect_dep (handle ClickMic s) = effect_dep s"
    and "audioContextRef (handle ClickMic s) = audioContextRef s"
    and "open_contexts (handle ClickMic s) = open_contexts s"
    and "closed_contexts (handle ClickMic s) = closed_contexts s"
    and "live_streams (handle ClickMic s) = live_streams s"
    and "pending_frames (handle ClickMic s) = pending_frames s"
    and "animationIdRef (handle ClickMic s) = animationIdRef s"
  using assms by (auto simp: stopRecording_def setters)

lemma viz_denied_fields:
  assumes "mounted s" "0 < viz_waiting s"
  shows "mounted (handle (VizSettled (Denied m)) s)"
    and "\<not> recording (handle (VizSettled (Denied m)) s)"
    and "has_cleanup (handle (VizSettled (Denied m)) s) = has_cleanup s"
    and "effect_dep (handle (VizSettled (Denied m)) s) = effect_dep s"
    and "audioContextRef (handle (VizSettled (Denied m)) s) = audioContextRef s"
    and "open_contexts (handle (VizSettled (Denied m)) s) = open_contexts s"
    and "closed_contexts (handle (VizSettled (Denied m)) s) = closed_contexts s"
    and "live_streams (handle (VizSettled (Denied m)) s) = live_streams s"
    and "pending_frames (handle (VizSettled (Denied m)) s) = pending_frames s"
    and "animationIdRef (handle (VizSettled (Denied m)) s) = animationIdRef s"
  using assms by (simp_all add: viz_settle_def viz_catch_def setters Let_def)

lemma leave_fields:
  assumes inv: "ctx_inv s" and mo: "mounted s" and r: "recording s"
    and e: "e = ClickMic \<or> e = Unmount \<or> (e = VizSettled (Denied m) \<and> 0 < viz_waiting s)"
  shows "audioContextRef (dispatch e s) = None"
    and "open_contexts (dispatch e s) = drop_ref (audioContextRef s) (open_contexts s)"
    and "closed_contexts (dispatch e s) = closed_contexts s @ ref_list (audioContextRef s)"
    and "live_streams (dispatch e s) = live_streams s"
    and "pending_frames (dispatch e s) = drop_ref (animationIdRef s) (pending_frames s)"
proof -
  from inv mo r have hc: "has_cleanup s" and dep: "effect_dep s = Some True"
    and rec: "mediaRecorderRef s \<noteq> None"
    by (auto simp: ctx_inv_def core_def)
  consider "e = ClickMic" | "e = Unmount" | "e = VizSettled (Denied m)" "0 < viz_waiting s"
    using e by auto
  then have "audioContextRef (dispatch e s) = None \<and>
    open_contexts (dispatch e s) = drop_ref (audioContextRef s) (open_contexts s) \<and>
    closed_contexts (dispatch e s) = closed_contexts s @ ref_list (audioContextRef s) \<and>
    live_streams (dispatch e s) = live_streams s \<and>
    pending_frames (dispatch e s) = drop_ref (animationIdRef s) (pending_frames s)"
  proof cases
    case 1
    note h = stop_fields [OF mo r rec]
    have pre: "mounted (handle ClickMic s)" "has_cleanup (handle ClickMic s)"
      "\<not> recording (handle ClickMic s)" "effect_dep (handle ClickMic s) = Some True"
      using h hc dep by simp_all
    show ?thesis
      unfolding 1 dispatch_def using commit_leave_fields [OF pre] h by simp
  next
    case 2
    show ?thesis
      unfolding 2 dispatch_def using unmount_fields [OF mo hc] by simp
  next
    case 3
    note h = viz_denied_fields [OF mo 3(2), of m]
    have pre: "mounted (handle (VizSettled (Denied m)) s)" "has_cleanup (handle (VizSettled (Denied m)) s)"
      "\<not> recording (handle (VizSettled (Denied m)) s)" "effect_dep (handle (VizSettled (Denied m)) s) = Some True"
      using h hc dep by simp_all
    show ?thesis
      unfolding 3(1) dispatch_def using commit_leave_fields [OF pre] h by simp
  qed
  then show "audioContextRef (dispatch e s) = None"
    and "open_contexts (dispatch e s) = drop_ref (audioContextRef s) (open_contexts s)"
    and "closed_contexts (dispatch e s) = closed_contexts s @ ref_list (audioContextRef s)"
    and "live_streams (dispatch e s) = live_streams s"
    and "pending_frames (dispatch e s) = drop_ref (animationIdRef s) (pending_frames s)"
    by blast+
qed


lemma commit_synced: "ctx_inv s \<Longrightarrow> commit s = s"
  by (auto simp: commit_def ctx_inv_def)

lemma frame_fire_idle: "pending_frames s = [] \<Longrightarrow> frame_fire f s = s"
  by (simp add: frame_fire_def)

lemma drop_ref_single: "set xs \<subseteq> set (ref_list r) \<Longrightarrow> drop_ref r xs = []"
  by (cases r) (auto simp: removeAll_filter_not_eq filter_empty_conv)

lemma ctx_inv_recording:
  assumes "ctx_inv s"
  shows "(audioContextRef s \<noteq> None) = (mounted s \<and> recording s)"
    and "open_contexts s = ref_list (audioContextRef s)"
    and "distinct (closed_contexts s)"
    and "set (open_contexts s) \<inter> set (closed_contexts s) = {}"
  using assms by (auto simp: ctx_inv_def core_def)

lemma commit_live_streams: "live_streams (commit s) = live_streams s"
  by (simp add: commit_def waveform_effect_def waveform_cleanup_def cancel_frame_eq
      close_context_eq Let_def)

lemma drawWaveform_live_streams: "live_streams (fst (drawWaveform s)) = live_streams s"
  by (simp add: drawWaveform_def Let_def split: option.splits)

lemma viz_then_live_streams: "live_streams (fst (viz_then s)) = live_streams s @ [next_id s]"
  by (simp add: viz_then_def Let_def drawWaveform_live_streams split: option.splits)

lemma viz_settle_live_streams:
  "live_streams (viz_settle r s) = live_streams s @ (case r of Granted \<Rightarrow> [next_id s] | Denied m \<Rightarrow> [])"
proof (cases r)
  case Granted
  have "live_streams (fst (viz_then (s\<lparr> viz_waiting := viz_waiting s - 1 \<rparr>))) = live_streams s @ [next_id s]"
    by (simp add: viz_then_live_streams)
  with Granted show ?thesis
    by (auto simp: viz_settle_def Let_def viz_catch_def setters split: prod.splits option.splits)
next
  case (Denied m)
  then show ?thesis by (simp add: viz_settle_def Let_def viz_catch_def setters)
qed

lemma handle_live_streams: "\<exists>more. live_streams (handle e s) = live_streams s @ more"
proof (cases e)
  case ClickMic
  then show ?thesis
    by (simp add: stopRecording_def startRecording_begin_def setters Let_def split: option.splits)
next
  case (StartSettled r)
  then show ?thesis
    by (cases r) (simp_all add: startRecording_settle_def setters Let_def)
next
  case (VizSettled r)
  then show ?thesis by (simp add: viz_settle_live_streams)
next
  case (Frame f)
  then show ?thesis by (simp add: frame_fire_def drawWaveform_live_streams)
next
  case Unmount
  then show ?thesis by (simp add: unmount_def cleanup_fields)
qed

lemma dispatch_live_streams: "\<exists>more. live_streams (dispatch e s) = live_streams s @ more"
  using handle_live_streams [of e s] by (simp add: dispatch_def commit_live_streams)

text \<open>
  C1, as the code has it. In every state a run reaches, the open audio contexts are the
  one \<open>audioContextRef\<close> holds, which is there exactly while the view is mounted and
  recording, and no context has been closed twice; the cleanup is idempotent. On each
  way out of recording (the stop button, a rejected \<open>getUserMedia\<close> of the effect, the
  unmount) the one open context is closed, once, and the ref cleared, so a later start
  finds no context open; the animation frame named by \<open>animationIdRef\<close> is cancelled,
  so that with a single render loop no frame is pending and no pending frame can draw.
  No event ends a microphone stream: those delivered so far all stay live.
\<close>

theorem leaving_recording_closes_the_audio_context:
  assumes "s = run evs (mount supported)"
  shows "open_contexts s = ref_list (audioContextRef s) \<and>
         distinct (closed_contexts s) \<and>
         ((audioContextRef s \<noteq> None) = (mounted s \<and> recording s)) \<and>
         waveform_cleanup (waveform_cleanup s) = waveform_cleanup s \<and>
         (\<exists>more. live_streams (dispatch e s) = live_streams s @ more) \<and>
         (mounted s \<and> recording s \<and>
          (e = ClickMic \<or> e = Unmount \<or> (e = VizSettled (Denied m) \<and> 0 < viz_waiting s)) \<longrightarrow>
            length (open_contexts s) = 1 \<and>
            audioContextRef (dispatch e s) = None \<and>
            open_contexts (dispatch e s) = [] \<and>
            closed_contexts (dispatch e s) = closed_contexts s @ open_contexts s \<and>
            distinct (closed_contexts (dispatch e s)) \<and>
            live_streams (dispatch e s) = live_streams s \<and>
            (set (pending_frames s) \<subseteq> set (ref_list (animationIdRef s)) \<longrightarrow>
               pending_frames (dispatch e s) = [] \<and>
               (\<forall>f. dispatch (Frame f) (dispatch e s) = dispatch e s)))"
proof -
  have inv: "ctx_inv s"
    unfolding assms by (rule ctx_inv_run [OF ctx_inv_mount])
  note here = ctx_inv_recording [OF inv]
  have leave: "length (open_contexts s) = 1 \<and>
            audioContextRef (dispatch e s) = None \<and>
            open_contexts (dispatch e s) = [] \<and>
            closed_contexts (dispatch e s) = closed_contexts s @ open_contexts s \<and>
            distinct (closed_contexts (dispatch e s)) \<and>
            live_streams (dispatch e s) = live_streams s \<and>
            (set (pending_frames s) \<subseteq> set (ref_list (animationIdRef s)) \<longrightarrow>
               pending_frames (dispatch e s) = [] \<and>
               (\<forall>f. dispatch (Frame f) (dispatch e s) = dispatch e s))"
    if mo: "mounted s" and r: "recording s"
      and e: "e = ClickMic \<or> e = Unmount \<or> (e = VizSettled (Denied m) \<and> 0 < viz_waiting s)"
  proof -
    note after = leave_fields [OF inv mo r e]
    have inv': "ctx_inv (dispatch e s)" using inv by (rule ctx_inv_dispatch)
    from here mo r obtain c where c: "audioContextRef s = Some c" by auto
    with here have op: "open_contexts s = [c]" by simp
    have frames: "pending_frames (dispatch e s) = [] \<and>
               (\<forall>f. dispatch (Frame f) (dispatch e s) = dispatch e s)"
      if "set (pending_frames s) \<subseteq> set (ref_list (animationIdRef s))"
    proof -
      from that have none: "pending_frames (dispatch e s) = []"
        by (simp add: after drop_ref_single)
      then have "dispatch (Frame f) (dispatch e s) = dispatch e s" for f
        by (simp add: dispatch_def [of "Frame f"] frame_fire_idle commit_synced [OF inv'])
      with none show ?thesis by blast
    qed
    have "distinct (closed_contexts (dispatch e s))"
      using ctx_inv_recording(3) [OF inv'] .
    with frames show ?thesis
      by (simp add: after c op)
  qed
  have left: "mounted s \<and> recording s \<and>
          (e = ClickMic \<or> e = Unmount \<or> (e = VizSettled (Denied m) \<and> 0 < viz_waiting s)) \<longrightarrow>
            length (open_contexts s) = 1 \<and>
            audioContextRef (dispatch e s) = None \<and>
            open_contexts (dispatch e s) = [] \<and>
            closed_contexts (dispatch e s) = closed_contexts s @ open_contexts s \<and>
            distinct (closed_contexts (dispatch e s)) \<and>
            live_streams (dispatch e s) = live_streams s \<and>
            (set (pending_frames s) \<subseteq> set (ref_list (animationIdRef s)) \<longrightarrow>
               pending_frames (dispatch e s) = [] \<and>
               (\<forall>f. dispatch (Frame f) (dispatch e s) = dispatch e s))"
  proof (rule impI, elim conjE)
    assume "mounted s" "recording s"
      "e = ClickMic \<or> e = Unmount \<or> (e = VizSettled (Denied m) \<and> 0 < viz_waiting s)"
    then show "length (open_contexts s) = 1 \<and>
            audioContextRef (dispatch e s) = None \<and>
            open_contexts (dispatch e s) = [] \<and>
            closed_contexts (dispatch e s) = closed_contexts s @ open_contexts s \<and>
            distinct (closed_contexts (dispatch e s)) \<and>
            live_streams (dispatch e s) = live_streams s \<and>
            (set (pending_frames s) \<subseteq> set (ref_list (animationIdRef s)) \<longrightarrow>
               pending_frames (dispatch e s) = [] \<and>
               (\<forall>f. dispatch (Frame f) (dispatch e s) = dispatch e s))"
      by (rule leave)
  qed
  show ?thesis
    by (intro conjI) (fact here(2), fact here(3), fact here(1), fact waveform_cleanup_idem,
      fact dispatch_live_streams, fact left)
qed


lemmas model_defs = run_calls_def run_def dispatch_def commit_def mount_def init_def
  startRecording_def startRecording_begin_def startRecording_settle_def stopRecording_def
  waveform_effect_def waveform_cleanup_def cancel_frame_def close_context_def
  viz_settle_def viz_then_def viz_catch_def drawWaveform_def frame_fire_def unmount_def
  setters Let_def

theorem leaving_recording_witness:
  "open_contexts (run [ClickMic, StartSettled Granted, VizSettled Granted] (mount True)) = [2] \<and>
   pending_frames (run [ClickMic, StartSettled Granted, VizSettled Granted] (mount True)) = [4] \<and>
   open_contexts (run [ClickMic, StartSettled Granted, VizSettled Granted, ClickMic] (mount True)) = [] \<and>
   closed_contexts (run [ClickMic, StartSettled Granted, VizSettled Granted, ClickMic] (mount True)) = [2] \<and>
   pending_frames (run [ClickMic, StartSettled Granted, VizSettled Granted, ClickMic] (mount True)) = []"
proof -
  let ?s = "run [ClickMic, StartSettled Granted, VizSettled Granted] (mount True)"
  have s: "mounted ?s" "recording ?s" "pending_frames ?s = [4]" "animationIdRef ?s = Some 4"
    "open_contexts ?s = [2]" "closed_contexts ?s = []"
    by (simp_all add: model_defs)
  have step: "run [ClickMic, StartSettled Granted, VizSettled Granted, ClickMic] (mount True) =
    dispatch ClickMic ?s"
    by (simp add: run_def)
  from s show ?thesis
    unfolding step
    using leaving_recording_closes_the_audio_context
      [of ?s "[ClickMic, StartSettled Granted, VizSettled Granted]" True ClickMic "[]"]
    by simp
qed


text \<open>
  C1 as stated fails. After a stop, and after an unmount, the two microphone streams of
  the session are still live, and after the unmount the recorder is still recording.
  And when the \<open>getUserMedia\<close> of a first session's effect settles only after a stop and
  a restart, two render loops run; the stop that follows cancels one frame, the other
  stays pending and draws once more.
\<close>

theorem streams_stay_open_and_a_loop_survives:
  "\<not> recording (run [ClickMic, StartSettled Granted, VizSettled Granted, ClickMic] (mount True)) \<and>
   live_streams (run [ClickMic, StartSettled Granted, VizSettled Granted, ClickMic] (mount True)) = [0, 3] \<and>
   \<not> mounted (run [ClickMic, StartSettled Granted, VizSettled Granted, Unmount] (mount True)) \<and>
   live_streams (run [ClickMic, StartSettled Granted, VizSettled Granted, Unmount] (mount True)) = [0, 3] \<and>
   active_recorders (run [ClickMic, StartSettled Granted, VizSettled Granted, Unmount] (mount True)) = [1] \<and>
   \<not> recording (run [ClickMic, StartSettled Granted, ClickMic, ClickMic, StartSettled Granted,
                     VizSettled Granted, VizSettled Granted, ClickMic] (mount True)) \<and>
   pending_frames (run [ClickMic, StartSettled Granted, ClickMic, ClickMic, StartSettled Granted,
                     VizSettled Granted, VizSettled Granted, ClickMic] (mount True)) = [7] \<and>
   draws (run [ClickMic, StartSettled Granted, ClickMic, ClickMic, StartSettled Granted,
                     VizSettled Granted, VizSettled Granted, ClickMic] (mount True)) = 2 \<and>
   draws (run [ClickMic, StartSettled Granted, ClickMic, ClickMic, StartSettled Granted,
                     VizSettled Granted, VizSettled Granted, ClickMic, Frame 7] (mount True)) = 3"
  by (simp add: model_defs)























end
